theory Spec2Isabelle
  imports Complex_Main "HOL-Library.Log_Nat"
begin

section \<open>Data model\<close>

text \<open>
  The OKR progress engine of agiemme-planner: the tables \<open>objectives\<close>, \<open>key_results\<close> and
  \<open>progress_updates\<close> with their CHECK constraints and triggers (the SQL migrations), the
  model modules that issue one SQL statement per call through \<open>pool.query\<close>, and the
  service functions that compose them.

  Modelling decisions.
  \<^item> A \<open>DECIMAL(10,2)\<close> value is a rational; a value written to a \<open>DECIMAL(10,2)\<close> column
    is rounded to two decimals (half away from zero) and rejected when it needs more than
    eight integer digits. The division inside the SQL function
    \<open>calculate_completion_percentage\<close> is PostgreSQL's: rounded to a finite scale.
  \<^item> A JavaScript number is a binary64 floating-point number. Where the program only
    compares a number or passes it on (the values of a request, the fields \<open>targetValue\<close>
    and \<open>currentValue\<close> of a key result), it is identified with the decimal it is written
    as, which determines it. Where the program calculates (the completion percentage of
    \<open>mapRowToKeyResult\<close>), every operation is rounded as binary64 arithmetic rounds it, and
    the result is the rational value of the number.
  \<^item> A \<open>DATE\<close> is a day number; \<open>CURRENT_DATE\<close> is the parameter \<open>today\<close> of every
    statement. Timestamps (\<open>created_at\<close>, \<open>updated_at\<close>, \<open>recorded_at\<close>) are not modelled;
    rows are kept in insertion order, which is the order of \<open>created_at\<close>.
  \<^item> A UUID is a natural number, \<open>gen_random_uuid()\<close> takes the next one from a counter.
  \<^item> Every \<open>pool.query\<close> is one autocommitted statement: it either fails and leaves the
    database as it was, or commits. The source opens no transaction anywhere, so a service
    function that throws after a statement has committed leaves that statement's effect in
    the database. Service functions therefore return their outcome together with the database
    they leave behind.
\<close>

type_synonym uuid = nat
type_synonym day = int

datatype ObjectiveCategory = Career | Health | Relationships | Skills | Financial | Personal

datatype ObjectiveStatus = ObjActive | ObjCompleted | ObjArchived | ObjAbandoned

datatype KeyResultStatus = KrNotStarted | KrInProgress | KrCompleted | KrAtRisk

text \<open>
  \<open>AppError statusCode code\<close> is what \<open>createError(message, statusCode, code)\<close> builds;
  \<open>DbError name\<close> is an error raised by PostgreSQL, named by the violated constraint.
\<close>

datatype error = AppError nat string | DbError string

record Objective =
  o_id :: uuid
  o_userId :: uuid
  o_title :: string
  o_description :: "string option"
  o_category :: ObjectiveCategory
  o_targetDate :: day
  o_status :: ObjectiveStatus

text \<open>A row of the table \<open>key_results\<close>.\<close>

record key_results_row =
  krr_id :: uuid
  krr_objective_id :: uuid
  krr_description :: string
  krr_target_value :: rat
  krr_current_value :: rat
  krr_unit :: string
  krr_deadline :: day
  krr_status :: KeyResultStatus

text \<open>The TypeScript interface \<open>KeyResult\<close>, with the computed field.\<close>

record KeyResult =
  kr_id :: uuid
  kr_objectiveId :: uuid
  kr_description :: string
  kr_targetValue :: rat
  kr_currentValue :: rat
  kr_unit :: string
  kr_deadline :: day
  kr_completionPercentage :: rat
  kr_status :: KeyResultStatus

record ProgressUpdate =
  pu_id :: uuid
  pu_keyResultId :: uuid
  pu_valueRecorded :: rat
  pu_notes :: "string option"

record database =
  objectives :: "Objective list"
  key_results :: "key_results_row list"
  progress_updates :: "ProgressUpdate list"
  next_uuid :: uuid

record CreateObjectiveData =
  cod_userId :: uuid
  cod_title :: string
  cod_description :: "string option"
  cod_category :: ObjectiveCategory
  cod_targetDate :: day

record UpdateObjectiveData =
  uod_title :: "string option"
  uod_description :: "string option"
  uod_category :: "ObjectiveCategory option"
  uod_targetDate :: "day option"
  uod_status :: "ObjectiveStatus option"

record CreateKeyResultData =
  ckd_objectiveId :: uuid
  ckd_description :: string
  ckd_targetValue :: rat
  ckd_unit :: string
  ckd_deadline :: day
  ckd_currentValue :: "rat option"

record UpdateKeyResultData =
  ukd_description :: "string option"
  ukd_targetValue :: "rat option"
  ukd_currentValue :: "rat option"
  ukd_unit :: "string option"
  ukd_deadline :: "day option"

record CreateProgressUpdateData =
  cpd_keyResultId :: uuid
  cpd_valueRecorded :: rat
  cpd_notes :: "string option"

record UpdateProgressRequest =
  upr_keyResultId :: uuid
  upr_valueRecorded :: rat
  upr_notes :: "string option"

record KeyResultSpec =
  krs_description :: string
  krs_targetValue :: rat
  krs_unit :: string
  krs_deadline :: day

record CreateObjectiveRequest =
  cor_userId :: uuid
  cor_title :: string
  cor_description :: "string option"
  cor_category :: ObjectiveCategory
  cor_targetDate :: day
  cor_keyResults :: "KeyResultSpec list"

section \<open>Column types\<close>

definition numeric_round2 :: "rat \<Rightarrow> rat" where
  "numeric_round2 v =
     (if 0 \<le> v then of_int \<lfloor>v * 100 + 1 / 2\<rfloor> / 100
      else - (of_int \<lfloor>- v * 100 + 1 / 2\<rfloor> / 100))"

definition decimal_10_2 :: "rat \<Rightarrow> error + rat" where
  "decimal_10_2 v =
     (let r = numeric_round2 v
      in if 100000000 \<le> \<bar>r\<bar> then Inl (DbError ''numeric field overflow'') else Inr r)"

text \<open>
  A string stored into a \<open>VARCHAR(n)\<close> column: one that is too long is an error, unless the
  characters beyond the first \<open>n\<close> are all spaces, which are cut off.
\<close>

definition varchar :: "nat \<Rightarrow> string \<Rightarrow> error + string" where
  "varchar n s =
     (if length s \<le> n then Inr s
      else if list_all (\<lambda>c. c = CHR '' '') (drop n s) then Inr (take n s)
      else Inl (DbError ''value too long for type character varying''))"

text \<open>\<open>x || null\<close> on an optional string: the empty string is falsy.\<close>

definition or_null :: "string option \<Rightarrow> string option" where
  "or_null s = (case s of None \<Rightarrow> None | Some t \<Rightarrow> (if t = [] then None else Some t))"

section \<open>The key result state calculator (SQL)\<close>

text \<open>
  Division of PostgreSQL's type \<open>numeric\<close>, for operands that are values of
  \<open>DECIMAL(10,2)\<close> columns (display scale 2, \<open>0.01 \<le> |x| < 10^8\<close> or zero), as the trigger
  passes them. The quotient is rounded, half away from zero, to the scale that
  \<open>select_div_scale\<close> chooses: at least sixteen significant digits, counted in digits of base
  10000 from the weights and first digits of the operands. The product with \<open>100\<close> and the
  comparison are exact.
\<close>

definition numeric_weight :: "rat \<Rightarrow> int" where
  "numeric_weight x = (if x = 0 then 0 else if \<bar>x\<bar> < 1 then - 1 else if \<bar>x\<bar> < 10000 then 0 else 1)"

definition numeric_firstdigit :: "rat \<Rightarrow> int" where
  "numeric_firstdigit x =
     (if x = 0 then 0 else if \<bar>x\<bar> < 1 then \<lfloor>\<bar>x\<bar> * 10000\<rfloor>
      else if \<bar>x\<bar> < 10000 then \<lfloor>\<bar>x\<bar>\<rfloor> else \<lfloor>\<bar>x\<bar> / 10000\<rfloor>)"

definition select_div_scale :: "rat \<Rightarrow> rat \<Rightarrow> nat" where
  "select_div_scale var1 var2 =
     (let qweight = numeric_weight var1 - numeric_weight var2
                      - (if numeric_firstdigit var1 \<le> numeric_firstdigit var2 then 1 else 0);
          rscale = 16 - qweight * 4
      in nat (min (max (max (max rscale 2) 2) 0) 1000))"

definition numeric_round :: "nat \<Rightarrow> rat \<Rightarrow> rat" where
  "numeric_round rscale v =
     (if 0 \<le> v then of_int \<lfloor>v * 10 ^ rscale + 1 / 2\<rfloor> / 10 ^ rscale
      else - (of_int \<lfloor>- v * 10 ^ rscale + 1 / 2\<rfloor> / 10 ^ rscale))"

definition numeric_div :: "rat \<Rightarrow> rat \<Rightarrow> rat" where
  "numeric_div var1 var2 = numeric_round (select_div_scale var1 var2) (var1 / var2)"

definition calculate_completion_percentage :: "rat \<Rightarrow> rat \<Rightarrow> rat" where
  "calculate_completion_percentage current_val target_val =
     (if target_val = 0 then 0 else min (numeric_div current_val target_val * 100) 100)"

text \<open>The trigger function \<open>update_key_result_status\<close>, applied to the row \<open>NEW\<close>.\<close>

definition update_key_result_status :: "day \<Rightarrow> key_results_row \<Rightarrow> key_results_row" where
  "update_key_result_status today NEW =
     (let completion_pct = calculate_completion_percentage (krr_current_value NEW) (krr_target_value NEW);
          days_until_deadline = krr_deadline NEW - today
      in if 100 \<le> completion_pct then NEW\<lparr>krr_status := KrCompleted\<rparr>
         else if 0 < krr_current_value NEW then
           (if days_until_deadline < 14 \<and> completion_pct < 50 then NEW\<lparr>krr_status := KrAtRisk\<rparr>
            else NEW\<lparr>krr_status := KrInProgress\<rparr>)
         else NEW\<lparr>krr_status := KrNotStarted\<rparr>)"

section \<open>The key result state calculator (TypeScript, on read)\<close>

text \<open>
  Rounding to binary64: to the nearest number with a significand of 53 bits, a tie to the one
  whose significand is even. \<open>float64_exponent x\<close> is the \<open>e\<close> with
  \<open>2^e \<le> |x| < 2^(e+1)\<close>. The range of the exponent is not bounded: the numbers that arise
  from \<open>DECIMAL(10,2)\<close> values here lie between \<open>1e-10\<close> and \<open>1e12\<close>.
\<close>

definition float64_exponent :: "rat \<Rightarrow> int" where
  "float64_exponent x =
     (let (p, q) = quotient_of \<bar>x\<bar>; e = bitlen p - bitlen q
      in if power_int 2 e \<le> \<bar>x\<bar> then e else e - 1)"

definition round_half_even :: "rat \<Rightarrow> int" where
  "round_half_even x =
     (let n = \<lfloor>x\<rfloor>; d = x - of_int n
      in if d < 1 / 2 then n else if 1 / 2 < d then n + 1 else if even n then n else n + 1)"

definition float64 :: "rat \<Rightarrow> rat" where
  "float64 x =
     (if x = 0 then 0
      else let ulp = power_int 2 (float64_exponent x - 52)
           in of_int (round_half_even (x / ulp)) * ulp)"

text \<open>\<open>parseFloat\<close> of the text of a \<open>DECIMAL(10,2)\<close> value, as the driver returns it.\<close>

definition parseFloat :: "rat \<Rightarrow> rat" where
  "parseFloat s = float64 s"

definition calculateCompletionPercentage :: "rat \<Rightarrow> rat \<Rightarrow> rat" where
  "calculateCompletionPercentage currentValue targetValue =
     (if targetValue = 0 then 0
      else min (float64 (float64 (currentValue / targetValue) * 100)) 100)"

text \<open>
  \<open>Math.round\<close> rounds to the nearest integer, a half upwards; the result is a binary64
  number without further rounding.
\<close>

definition Math_round :: "rat \<Rightarrow> rat" where
  "Math_round x = of_int \<lfloor>x + 1 / 2\<rfloor>"

definition mapRowToKeyResult :: "key_results_row \<Rightarrow> KeyResult" where
  "mapRowToKeyResult row =
     (let completionPercentage =
            calculateCompletionPercentage (parseFloat (krr_current_value row))
              (parseFloat (krr_target_value row))
      in \<lparr>kr_id = krr_id row,
          kr_objectiveId = krr_objective_id row,
          kr_description = krr_description row,
          kr_targetValue = krr_target_value row,
          kr_currentValue = krr_current_value row,
          kr_unit = krr_unit row,
          kr_deadline = krr_deadline row,
          kr_completionPercentage = float64 (Math_round (float64 (completionPercentage * 100)) / 100),
          kr_status = krr_status row\<rparr>)"

text \<open>
  The calculator as the specification words it: the percentage, and the status by the first
  rule that matches.
\<close>

definition spec_computeState :: "rat \<Rightarrow> rat \<Rightarrow> day \<Rightarrow> day \<Rightarrow> rat \<times> KeyResultStatus" where
  "spec_computeState targetValue currentValue deadline today =
     (let completionPercentage =
            (if targetValue = 0 then 0 else min (currentValue / targetValue * 100) 100)
      in (completionPercentage,
          if 100 \<le> completionPercentage then KrCompleted
          else if currentValue = 0 then KrNotStarted
          else if deadline - today < 14 \<and> completionPercentage < 50 then KrAtRisk
          else KrInProgress))"

section \<open>Statements\<close>

text \<open>
  \<open>UPDATE ... WHERE p\<close>: every row that matches is replaced by what \<open>f\<close> makes of it; the
  first row that \<open>f\<close> rejects aborts the statement.
\<close>

fun update_rows :: "('r \<Rightarrow> bool) \<Rightarrow> ('r \<Rightarrow> error + 'r) \<Rightarrow> 'r list \<Rightarrow> error + 'r list" where
  "update_rows p f [] = Inr []"
| "update_rows p f (r # rs) =
     (case (if p r then f r else Inr r) of
        Inl e \<Rightarrow> Inl e
      | Inr r' \<Rightarrow> (case update_rows p f rs of Inl e \<Rightarrow> Inl e | Inr rs' \<Rightarrow> Inr (r' # rs')))"

text \<open>
  The CHECK constraints of a table, tested in alphabetical order of their names. PostgreSQL
  tests them on every row that an \<open>INSERT\<close> or an \<open>UPDATE\<close> writes, whichever columns the
  statement assigns; \<open>objectives_target_date_future\<close> reads \<open>CURRENT_DATE\<close> at that moment.
\<close>

definition objectives_checks :: "day \<Rightarrow> Objective \<Rightarrow> error + Objective" where
  "objectives_checks today row =
     (if \<not> today \<le> o_targetDate row then Inl (DbError ''objectives_target_date_future'')
      else if \<not> (5 \<le> length (o_title row) \<and> length (o_title row) \<le> 200)
        then Inl (DbError ''objectives_title_length'')
      else Inr row)"

definition key_results_checks :: "key_results_row \<Rightarrow> error + key_results_row" where
  "key_results_checks row =
     (if \<not> (0 \<le> krr_current_value row \<and> krr_current_value row \<le> krr_target_value row)
        then Inl (DbError ''key_results_current_value_valid'')
      else if \<not> (10 \<le> length (krr_description row) \<and> length (krr_description row) \<le> 300)
        then Inl (DbError ''key_results_description_length'')
      else if \<not> 0 < krr_target_value row then Inl (DbError ''key_results_target_value_positive'')
      else Inr row)"

definition progress_updates_checks :: "ProgressUpdate \<Rightarrow> error + ProgressUpdate" where
  "progress_updates_checks row =
     (if \<not> (case pu_notes row of None \<Rightarrow> True | Some n \<Rightarrow> length n \<le> 1000)
        then Inl (DbError ''progress_updates_notes_length'')
      else if \<not> 0 \<le> pu_valueRecorded row then Inl (DbError ''progress_updates_value_positive'')
      else Inr row)"

section \<open>Model modules: one SQL statement per function\<close>

subsection \<open>ObjectiveModel\<close>

text \<open>
  \<open>INSERT INTO objectives\<close>. The status takes the column default \<open>'active'\<close>. The owner is
  assumed to exist (the table \<open>users\<close> is outside this model).
\<close>

definition ObjectiveModel_createObjective ::
  "day \<Rightarrow> CreateObjectiveData \<Rightarrow> database \<Rightarrow> error + (Objective \<times> database)" where
  "ObjectiveModel_createObjective today data db =
     (case varchar 200 (cod_title data) of
        Inl e \<Rightarrow> Inl e
      | Inr title \<Rightarrow>
          (case objectives_checks today
                  \<lparr>o_id = next_uuid db, o_userId = cod_userId data, o_title = title,
                   o_description = or_null (cod_description data),
                   o_category = cod_category data, o_targetDate = cod_targetDate data,
                   o_status = ObjActive\<rparr> of
             Inl e \<Rightarrow> Inl e
           | Inr row \<Rightarrow>
               Inr (row, db\<lparr>objectives := objectives db @ [row], next_uuid := Suc (next_uuid db)\<rparr>)))"

definition ObjectiveModel_findObjectiveById :: "database \<Rightarrow> uuid \<Rightarrow> Objective option" where
  "ObjectiveModel_findObjectiveById db ident = find (\<lambda>row. o_id row = ident) (objectives db)"

text \<open>The \<open>SET\<close> list that \<open>updateObjective\<close> builds: one assignment per defined field.\<close>

definition objectives_set :: "UpdateObjectiveData \<Rightarrow> Objective \<Rightarrow> error + Objective" where
  "objectives_set data row =
     (case (case uod_title data of None \<Rightarrow> Inr (o_title row) | Some t \<Rightarrow> varchar 200 t) of
        Inl e \<Rightarrow> Inl e
      | Inr title \<Rightarrow>
          Inr (row\<lparr>o_title := title,
                   o_description := (case uod_description data of None \<Rightarrow> o_description row | Some d \<Rightarrow> Some d),
                   o_category := (case uod_category data of None \<Rightarrow> o_category row | Some c \<Rightarrow> c),
                   o_targetDate := (case uod_targetDate data of None \<Rightarrow> o_targetDate row | Some d \<Rightarrow> d),
                   o_status := (case uod_status data of None \<Rightarrow> o_status row | Some s \<Rightarrow> s)\<rparr>))"

definition ObjectiveModel_updateObjective ::
  "day \<Rightarrow> uuid \<Rightarrow> UpdateObjectiveData \<Rightarrow> database \<Rightarrow> error + (Objective option \<times> database)" where
  "ObjectiveModel_updateObjective today ident data db =
     (if uod_title data = None \<and> uod_description data = None \<and> uod_category data = None
         \<and> uod_targetDate data = None \<and> uod_status data = None
      then Inr (ObjectiveModel_findObjectiveById db ident, db)
      else
        (case update_rows (\<lambda>row. o_id row = ident)
                (\<lambda>row. case objectives_set data row of
                          Inl e \<Rightarrow> Inl e
                        | Inr new \<Rightarrow> objectives_checks today new)
                (objectives db) of
           Inl e \<Rightarrow> Inl e
         | Inr rows \<Rightarrow>
             Inr (find (\<lambda>row. o_id row = ident) rows, db\<lparr>objectives := rows\<rparr>)))"

subsection \<open>KeyResultModel\<close>

text \<open>
  \<open>INSERT INTO key_results\<close>: the values are coerced to the column types, the trigger
  \<open>key_results_auto_status\<close> (BEFORE INSERT) sets the status, the CHECK constraints are
  tested, and the foreign key to \<open>objectives\<close> is verified.
\<close>

definition KeyResultModel_createKeyResult ::
  "day \<Rightarrow> CreateKeyResultData \<Rightarrow> database \<Rightarrow> error + (KeyResult \<times> database)" where
  "KeyResultModel_createKeyResult today data db =
     (case varchar 300 (ckd_description data) of
        Inl e \<Rightarrow> Inl e
      | Inr description \<Rightarrow>
     (case decimal_10_2 (ckd_targetValue data) of
        Inl e \<Rightarrow> Inl e
      | Inr target_value \<Rightarrow>
     (case decimal_10_2 (case ckd_currentValue data of None \<Rightarrow> 0 | Some v \<Rightarrow> v) of
        Inl e \<Rightarrow> Inl e
      | Inr current_value \<Rightarrow>
     (case varchar 50 (ckd_unit data) of
        Inl e \<Rightarrow> Inl e
      | Inr unit \<Rightarrow>
     (case key_results_checks
             (update_key_result_status today
                \<lparr>krr_id = next_uuid db, krr_objective_id = ckd_objectiveId data,
                 krr_description = description, krr_target_value = target_value,
                 krr_current_value = current_value, krr_unit = unit,
                 krr_deadline = ckd_deadline data, krr_status = KrNotStarted\<rparr>) of
        Inl e \<Rightarrow> Inl e
      | Inr row \<Rightarrow>
          (if ObjectiveModel_findObjectiveById db (ckd_objectiveId data) = None
           then Inl (DbError ''key_results_objective_id_fkey'')
           else Inr (mapRowToKeyResult row,
                     db\<lparr>key_results := key_results db @ [row], next_uuid := Suc (next_uuid db)\<rparr>)))))))"

definition KeyResultModel_findKeyResultById :: "database \<Rightarrow> uuid \<Rightarrow> KeyResult option" where
  "KeyResultModel_findKeyResultById db ident =
     map_option mapRowToKeyResult (find (\<lambda>row. krr_id row = ident) (key_results db))"

definition KeyResultModel_findKeyResultsByObjectiveId :: "database \<Rightarrow> uuid \<Rightarrow> KeyResult list" where
  "KeyResultModel_findKeyResultsByObjectiveId db objectiveId =
     map mapRowToKeyResult (filter (\<lambda>row. krr_objective_id row = objectiveId) (key_results db))"

text \<open>
  What an \<open>UPDATE key_results\<close> does to one row once the \<open>SET\<close> list has been applied:
  the trigger \<open>key_results_auto_status\<close> fires only when \<open>current_value\<close>, \<open>target_value\<close>
  or \<open>deadline\<close> is assigned (\<open>BEFORE UPDATE OF\<close>); the CHECK constraints are tested on the
  result.
\<close>

definition key_results_before_update :: "day \<Rightarrow> bool \<Rightarrow> key_results_row \<Rightarrow> error + key_results_row" where
  "key_results_before_update today status_columns NEW =
     key_results_checks (if status_columns then update_key_result_status today NEW else NEW)"

definition key_results_set :: "UpdateKeyResultData \<Rightarrow> key_results_row \<Rightarrow> error + key_results_row" where
  "key_results_set data row =
     (case (case ukd_description data of None \<Rightarrow> Inr (krr_description row) | Some d \<Rightarrow> varchar 300 d) of
        Inl e \<Rightarrow> Inl e
      | Inr description \<Rightarrow>
     (case (case ukd_targetValue data of None \<Rightarrow> Inr (krr_target_value row) | Some v \<Rightarrow> decimal_10_2 v) of
        Inl e \<Rightarrow> Inl e
      | Inr target_value \<Rightarrow>
     (case (case ukd_currentValue data of None \<Rightarrow> Inr (krr_current_value row) | Some v \<Rightarrow> decimal_10_2 v) of
        Inl e \<Rightarrow> Inl e
      | Inr current_value \<Rightarrow>
     (case (case ukd_unit data of None \<Rightarrow> Inr (krr_unit row) | Some u \<Rightarrow> varchar 50 u) of
        Inl e \<Rightarrow> Inl e
      | Inr unit \<Rightarrow>
          Inr (row\<lparr>krr_description := description, krr_target_value := target_value,
                   krr_current_value := current_value, krr_unit := unit,
                   krr_deadline := (case ukd_deadline data of None \<Rightarrow> krr_deadline row | Some d \<Rightarrow> d)\<rparr>)))))"

definition KeyResultModel_updateKeyResult ::
  "day \<Rightarrow> uuid \<Rightarrow> UpdateKeyResultData \<Rightarrow> database \<Rightarrow> error + (KeyResult option \<times> database)" where
  "KeyResultModel_updateKeyResult today ident data db =
     (if ukd_description data = None \<and> ukd_targetValue data = None \<and> ukd_currentValue data = None
         \<and> ukd_unit data = None \<and> ukd_deadline data = None
      then Inr (KeyResultModel_findKeyResultById db ident, db)
      else
        (case update_rows (\<lambda>row. krr_id row = ident)
                (\<lambda>row. case key_results_set data row of
                          Inl e \<Rightarrow> Inl e
                        | Inr new \<Rightarrow>
                            key_results_before_update today
                              (ukd_targetValue data \<noteq> None \<or> ukd_currentValue data \<noteq> None
                                 \<or> ukd_deadline data \<noteq> None) new)
                (key_results db) of
           Inl e \<Rightarrow> Inl e
         | Inr rows \<Rightarrow>
             Inr (map_option mapRowToKeyResult (find (\<lambda>row. krr_id row = ident) rows),
                  db\<lparr>key_results := rows\<rparr>)))"

text \<open>
  \<open>DELETE FROM key_results WHERE id = $1\<close>; the progress updates of a deleted row go with it
  (\<open>ON DELETE CASCADE\<close>). The result is \<open>rowCount > 0\<close>.
\<close>

definition KeyResultModel_deleteKeyResult :: "uuid \<Rightarrow> database \<Rightarrow> bool \<times> database" where
  "KeyResultModel_deleteKeyResult ident db =
     (0 < length (filter (\<lambda>row. krr_id row = ident) (key_results db)),
      db\<lparr>key_results := filter (\<lambda>row. krr_id row \<noteq> ident) (key_results db),
         progress_updates := filter (\<lambda>row. pu_keyResultId row \<noteq> ident) (progress_updates db)\<rparr>)"

subsection \<open>ProgressUpdateModel\<close>

text \<open>
  The trigger function \<open>update_key_result_from_progress\<close> (AFTER INSERT on
  \<open>progress_updates\<close>): an \<open>UPDATE key_results SET current_value = NEW.value_recorded\<close>,
  which in turn fires \<open>key_results_auto_status\<close> and is subject to the CHECK constraints
  of \<open>key_results\<close>.
\<close>

definition update_key_result_from_progress ::
  "day \<Rightarrow> ProgressUpdate \<Rightarrow> key_results_row list \<Rightarrow> error + key_results_row list" where
  "update_key_result_from_progress today NEW rows =
     update_rows (\<lambda>row. krr_id row = pu_keyResultId NEW)
       (\<lambda>row. key_results_before_update today True (row\<lparr>krr_current_value := pu_valueRecorded NEW\<rparr>))
       rows"

text \<open>
  \<open>INSERT INTO progress_updates\<close>: one statement, so the insert and the trigger's update of
  \<open>key_results\<close> take effect together or not at all.
\<close>

definition ProgressUpdateModel_createProgressUpdate ::
  "day \<Rightarrow> CreateProgressUpdateData \<Rightarrow> database \<Rightarrow> error + (ProgressUpdate \<times> database)" where
  "ProgressUpdateModel_createProgressUpdate today data db =
     (case decimal_10_2 (cpd_valueRecorded data) of
        Inl e \<Rightarrow> Inl e
      | Inr value_recorded \<Rightarrow>
     (case progress_updates_checks
             \<lparr>pu_id = next_uuid db, pu_keyResultId = cpd_keyResultId data,
              pu_valueRecorded = value_recorded, pu_notes = or_null (cpd_notes data)\<rparr> of
        Inl e \<Rightarrow> Inl e
      | Inr row \<Rightarrow>
          (if find (\<lambda>r. krr_id r = cpd_keyResultId data) (key_results db) = None
           then Inl (DbError ''progress_updates_key_result_id_fkey'')
           else
             (case update_key_result_from_progress today row (key_results db) of
                Inl e \<Rightarrow> Inl e
              | Inr rows \<Rightarrow>
                  Inr (row, db\<lparr>key_results := rows,
                                progress_updates := progress_updates db @ [row],
                                next_uuid := Suc (next_uuid db)\<rparr>)))))"

section \<open>Services\<close>

subsection \<open>ObjectiveService\<close>

text \<open>
  \<open>Promise.all(data.keyResults.map(createKeyResult))\<close>: every insert is issued, each is a
  statement of its own, and the first rejection rejects the whole. The inserts that did not
  fail are committed all the same. The model issues them in the order of the list.
\<close>

fun Promise_all_createKeyResult ::
  "day \<Rightarrow> CreateKeyResultData list \<Rightarrow> database \<Rightarrow> (error + KeyResult list) \<times> database" where
  "Promise_all_createKeyResult today [] db = (Inr [], db)"
| "Promise_all_createKeyResult today (d # ds) db =
     (case KeyResultModel_createKeyResult today d db of
        Inl e \<Rightarrow> (Inl e, snd (Promise_all_createKeyResult today ds db))
      | Inr (kr, db1) \<Rightarrow>
          (case Promise_all_createKeyResult today ds db1 of
             (Inl e, db2) \<Rightarrow> (Inl e, db2)
           | (Inr krs, db2) \<Rightarrow> (Inr (kr # krs), db2)))"

definition ObjectiveService_createObjectiveWithKeyResults ::
  "day \<Rightarrow> CreateObjectiveRequest \<Rightarrow> database \<Rightarrow> (error + (Objective \<times> KeyResult list)) \<times> database" where
  "ObjectiveService_createObjectiveWithKeyResults today data db =
     (if length (cor_keyResults data) < 2 \<or> 5 < length (cor_keyResults data)
      then (Inl (AppError 400 ''INVALID_KEY_RESULTS_COUNT''), db)
      else if 0 < length (filter (\<lambda>kr. cor_targetDate data < krs_deadline kr) (cor_keyResults data))
      then (Inl (AppError 400 ''INVALID_DEADLINE''), db)
      else
        (case ObjectiveModel_createObjective today
                \<lparr>cod_userId = cor_userId data, cod_title = cor_title data,
                 cod_description = cor_description data, cod_category = cor_category data,
                 cod_targetDate = cor_targetDate data\<rparr> db of
           Inl e \<Rightarrow> (Inl e, db)
         | Inr (objective, db1) \<Rightarrow>
             (case Promise_all_createKeyResult today
                     (map (\<lambda>kr. \<lparr>ckd_objectiveId = o_id objective,
                                  ckd_description = krs_description kr,
                                  ckd_targetValue = krs_targetValue kr,
                                  ckd_unit = krs_unit kr,
                                  ckd_deadline = krs_deadline kr,
                                  ckd_currentValue = None\<rparr>) (cor_keyResults data)) db1 of
                (Inl e, db2) \<Rightarrow> (Inl e, db2)
              | (Inr keyResults, db2) \<Rightarrow> (Inr (objective, keyResults), db2))))"

definition ObjectiveService_getObjectiveWithKeyResults ::
  "database \<Rightarrow> uuid \<Rightarrow> (Objective \<times> KeyResult list) option" where
  "ObjectiveService_getObjectiveWithKeyResults db objectiveId =
     (case ObjectiveModel_findObjectiveById db objectiveId of
        None \<Rightarrow> None
      | Some objective \<Rightarrow>
          Some (objective, KeyResultModel_findKeyResultsByObjectiveId db objectiveId))"

definition ObjectiveService_updateObjective ::
  "day \<Rightarrow> uuid \<Rightarrow> UpdateObjectiveData \<Rightarrow> database \<Rightarrow> error + (Objective option \<times> database)" where
  "ObjectiveService_updateObjective today objectiveId data db =
     ObjectiveModel_updateObjective today objectiveId data db"

text \<open>The local \<open>allCompleted\<close> of \<open>checkAndUpdateObjectiveCompletion\<close>.\<close>

definition allCompleted :: "KeyResult list \<Rightarrow> bool" where
  "allCompleted keyResults =
     (0 < length keyResults \<and> list_all (\<lambda>kr. kr_status kr = KrCompleted) keyResults)"

definition checkAndUpdateObjectiveCompletion ::
  "day \<Rightarrow> uuid \<Rightarrow> database \<Rightarrow> (error + unit) \<times> database" where
  "checkAndUpdateObjectiveCompletion today objectiveId db =
     (let keyResults = KeyResultModel_findKeyResultsByObjectiveId db objectiveId
      in if allCompleted keyResults then
           (case ObjectiveModel_updateObjective today objectiveId
                   \<lparr>uod_title = None, uod_description = None, uod_category = None,
                    uod_targetDate = None, uod_status = Some ObjCompleted\<rparr> db of
              Inl e \<Rightarrow> (Inl e, db)
            | Inr (updated, db1) \<Rightarrow> (Inr (), db1))
         else (Inr (), db))"

subsection \<open>KeyResultService\<close>

definition updateProgress ::
  "day \<Rightarrow> UpdateProgressRequest \<Rightarrow> database \<Rightarrow> (error + ProgressUpdate) \<times> database" where
  "updateProgress today data db =
     (case KeyResultModel_findKeyResultById db (upr_keyResultId data) of
        None \<Rightarrow> (Inl (AppError 404 ''KEY_RESULT_NOT_FOUND''), db)
      | Some keyResult \<Rightarrow>
          (if upr_valueRecorded data < 0 then (Inl (AppError 400 ''INVALID_PROGRESS_VALUE''), db)
           else
             (case ProgressUpdateModel_createProgressUpdate today
                     \<lparr>cpd_keyResultId = upr_keyResultId data,
                      cpd_valueRecorded = upr_valueRecorded data,
                      cpd_notes = upr_notes data\<rparr> db of
                Inl e \<Rightarrow> (Inl e, db)
              | Inr (progressUpdate, db1) \<Rightarrow>
                  (case checkAndUpdateObjectiveCompletion today (kr_objectiveId keyResult) db1 of
                     (Inl e, db2) \<Rightarrow> (Inl e, db2)
                   | (Inr u, db2) \<Rightarrow> (Inr progressUpdate, db2)))))"

definition KeyResultService_deleteKeyResult ::
  "uuid \<Rightarrow> database \<Rightarrow> (error + bool) \<times> database" where
  "KeyResultService_deleteKeyResult keyResultId db =
     (case KeyResultModel_findKeyResultById db keyResultId of
        None \<Rightarrow> (Inr False, db)
      | Some keyResult \<Rightarrow>
          (let allKeyResults = KeyResultModel_findKeyResultsByObjectiveId db (kr_objectiveId keyResult)
           in if length allKeyResults \<le> 2
              then (Inl (AppError 400 ''MINIMUM_KEY_RESULTS_REQUIRED''), db)
              else (case KeyResultModel_deleteKeyResult keyResultId db of
                      (deleted, db1) \<Rightarrow> (Inr deleted, db1))))"

text \<open>\<open>Set.add\<close> on a JavaScript \<open>Set\<close>, which iterates in insertion order.\<close>

definition Set_add :: "uuid list \<Rightarrow> uuid \<Rightarrow> uuid list" where
  "Set_add s x = (if x \<in> set s then s else s @ [x])"

text \<open>The first loop of \<open>batchUpdateProgress\<close>, with its two accumulators.\<close>

fun batchUpdateProgress_process ::
  "day \<Rightarrow> UpdateProgressRequest list \<Rightarrow> ProgressUpdate list \<Rightarrow> uuid list \<Rightarrow> database
     \<Rightarrow> (error + (ProgressUpdate list \<times> uuid list)) \<times> database" where
  "batchUpdateProgress_process today [] results objectiveIds db = (Inr (results, objectiveIds), db)"
| "batchUpdateProgress_process today (update # updates) results objectiveIds db =
     (case KeyResultModel_findKeyResultById db (upr_keyResultId update) of
        None \<Rightarrow> (Inl (AppError 404 ''KEY_RESULT_NOT_FOUND''), db)
      | Some keyResult \<Rightarrow>
          (case ProgressUpdateModel_createProgressUpdate today
                  \<lparr>cpd_keyResultId = upr_keyResultId update,
                   cpd_valueRecorded = upr_valueRecorded update,
                   cpd_notes = upr_notes update\<rparr> db of
             Inl e \<Rightarrow> (Inl e, db)
           | Inr (progressUpdate, db1) \<Rightarrow>
               batchUpdateProgress_process today updates (results @ [progressUpdate])
                 (Set_add objectiveIds (kr_objectiveId keyResult)) db1))"

text \<open>The second loop: the completion check of every objective that was touched.\<close>

fun batchUpdateProgress_check :: "day \<Rightarrow> uuid list \<Rightarrow> database \<Rightarrow> (error + unit) \<times> database" where
  "batchUpdateProgress_check today [] db = (Inr (), db)"
| "batchUpdateProgress_check today (objectiveId # objectiveIds) db =
     (case checkAndUpdateObjectiveCompletion today objectiveId db of
        (Inl e, db1) \<Rightarrow> (Inl e, db1)
      | (Inr u, db1) \<Rightarrow> batchUpdateProgress_check today objectiveIds db1)"

definition batchUpdateProgress ::
  "day \<Rightarrow> UpdateProgressRequest list \<Rightarrow> database \<Rightarrow> (error + ProgressUpdate list) \<times> database" where
  "batchUpdateProgress today updates db =
     (case batchUpdateProgress_process today updates [] [] db of
        (Inl e, db1) \<Rightarrow> (Inl e, db1)
      | (Inr (results, objectiveIds), db1) \<Rightarrow>
          (case batchUpdateProgress_check today objectiveIds db1 of
             (Inl e, db2) \<Rightarrow> (Inl e, db2)
           | (Inr u, db2) \<Rightarrow> (Inr results, db2)))"

text \<open>A sequence of \<open>updateProgress\<close> calls, each at its own date, whatever each returns.\<close>

fun updateProgress_sequence :: "(day \<times> UpdateProgressRequest) list \<Rightarrow> database \<Rightarrow> database" where
  "updateProgress_sequence [] db = db"
| "updateProgress_sequence ((today, data) # calls) db =
     updateProgress_sequence calls (snd (updateProgress today data db))"

section \<open>The route \<open>PUT /api/objectives/:id\<close>\<close>

record PutObjectiveBody =
  pob_title :: "string option"
  pob_description :: "string option"
  pob_category :: "string option"
  pob_targetDate :: "day option"
  pob_status :: "string option"

text \<open>Membership in \<open>validCategories\<close> and \<open>validStatuses\<close>, with the value the string names.\<close>

definition validCategories :: "string \<Rightarrow> ObjectiveCategory option" where
  "validCategories c =
     (if c = ''career'' then Some Career
      else if c = ''health'' then Some Health
      else if c = ''relationships'' then Some Relationships
      else if c = ''skills'' then Some Skills
      else if c = ''financial'' then Some Financial
      else if c = ''personal'' then Some Personal
      else None)"

definition validStatuses :: "string \<Rightarrow> ObjectiveStatus option" where
  "validStatuses s =
     (if s = ''active'' then Some ObjActive
      else if s = ''completed'' then Some ObjCompleted
      else if s = ''archived'' then Some ObjArchived
      else if s = ''abandoned'' then Some ObjAbandoned
      else None)"

definition put_objective ::
  "day \<Rightarrow> uuid \<Rightarrow> uuid \<Rightarrow> PutObjectiveBody \<Rightarrow> database \<Rightarrow> (error + Objective option) \<times> database" where
  "put_objective today userId ident body db =
     (case ObjectiveService_getObjectiveWithKeyResults db ident of
        None \<Rightarrow> (Inl (AppError 404 ''OBJECTIVE_NOT_FOUND''), db)
      | Some (existing, keyResults) \<Rightarrow>
          (if o_userId existing \<noteq> userId then (Inl (AppError 403 ''ACCESS_DENIED''), db)
           else if (case pob_title body of None \<Rightarrow> False | Some t \<Rightarrow> length t < 5 \<or> 200 < length t)
             then (Inl (AppError 400 ''INVALID_TITLE''), db)
           else if (case pob_category body of None \<Rightarrow> False | Some c \<Rightarrow> validCategories c = None)
             then (Inl (AppError 400 ''INVALID_CATEGORY''), db)
           else if (case pob_targetDate body of None \<Rightarrow> False
                    | Some target \<Rightarrow> list_ex (\<lambda>kr. target < kr_deadline kr) keyResults)
             then (Inl (AppError 400 ''INVALID_TARGET_DATE''), db)
           else if (case pob_status body of None \<Rightarrow> False | Some s \<Rightarrow> validStatuses s = None)
             then (Inl (AppError 400 ''INVALID_STATUS''), db)
           else
             (case ObjectiveService_updateObjective today ident
                     \<lparr>uod_title = pob_title body,
                      uod_description = pob_description body,
                      uod_category = (case pob_category body of None \<Rightarrow> None | Some c \<Rightarrow> validCategories c),
                      uod_targetDate = pob_targetDate body,
                      uod_status = (case pob_status body of None \<Rightarrow> None | Some s \<Rightarrow> validStatuses s)\<rparr> db of
                Inl e \<Rightarrow> (Inl e, db)
              | Inr (updated, db1) \<Rightarrow> (Inr updated, db1))))"

section \<open>Relations between the database before and after a statement\<close>

text \<open>
  What the insert of the progress update \<open>pu\<close> at date \<open>today\<close> does to a row \<open>r\<close> of
  \<open>key_results\<close>, giving \<open>r'\<close>.
\<close>

definition progress_row_step :: "day \<Rightarrow> ProgressUpdate \<Rightarrow> key_results_row \<Rightarrow> key_results_row \<Rightarrow> bool" where
  "progress_row_step today pu r r' \<longleftrightarrow>
     (if krr_id r = pu_keyResultId pu
      then r' = update_key_result_status today (r\<lparr>krr_current_value := pu_valueRecorded pu\<rparr>)
           \<and> key_results_checks r' = Inr r'
      else r' = r)"

text \<open>
  What a status-only \<open>UPDATE objectives\<close> of the objective \<open>ident\<close> does to a row \<open>r\<close>.
\<close>

definition status_row_step :: "day \<Rightarrow> uuid \<Rightarrow> ObjectiveStatus \<Rightarrow> Objective \<Rightarrow> Objective \<Rightarrow> bool" where
  "status_row_step today ident st r r' \<longleftrightarrow>
     (if o_id r = ident then r' = r\<lparr>o_status := st\<rparr> \<and> objectives_checks today r' = Inr r'
      else r' = r)"

text \<open>
  The only change the completion cascade makes to a row of \<open>objectives\<close>: none, or the
  status \<open>completed\<close>.
\<close>

definition cascade_row_step :: "Objective \<Rightarrow> Objective \<Rightarrow> bool" where
  "cascade_row_step r r' \<longleftrightarrow> r' = r \<or> r' = r\<lparr>o_status := ObjCompleted\<rparr>"

text \<open>
  What a run of progress inserts \<open>new\<close> does to a row \<open>r\<close> of \<open>key_results\<close>: the last insert
  for the row decides its current value; a row that no insert names is as it was.
\<close>

definition batch_row_step :: "ProgressUpdate list \<Rightarrow> key_results_row \<Rightarrow> key_results_row \<Rightarrow> bool" where
  "batch_row_step new r r1 \<longleftrightarrow>
     krr_id r1 = krr_id r
   \<and> (case find (\<lambda>pu. pu_keyResultId pu = krr_id r) (rev new) of
        None \<Rightarrow> r1 = r
      | Some pu \<Rightarrow> krr_current_value r1 = pu_valueRecorded pu)"

text \<open>
  The declared constraints of the three tables at date \<open>today\<close>: column types, primary
  keys, CHECK constraints and foreign keys.
\<close>

definition constraints_hold :: "day \<Rightarrow> database \<Rightarrow> bool" where
  "constraints_hold today db \<longleftrightarrow>
     list_all (\<lambda>row. decimal_10_2 (krr_target_value row) = Inr (krr_target_value row)
                   \<and> decimal_10_2 (krr_current_value row) = Inr (krr_current_value row)
                   \<and> varchar 50 (krr_unit row) = Inr (krr_unit row)) (key_results db)
   \<and> list_all (\<lambda>row. decimal_10_2 (pu_valueRecorded row) = Inr (pu_valueRecorded row)) (progress_updates db)
   \<and> distinct (map o_id (objectives db))
   \<and> distinct (map krr_id (key_results db))
   \<and> distinct (map pu_id (progress_updates db))
   \<and> list_all (\<lambda>row. objectives_checks today row = Inr row) (objectives db)
   \<and> list_all (\<lambda>row. key_results_checks row = Inr row) (key_results db)
   \<and> list_all (\<lambda>row. progress_updates_checks row = Inr row) (progress_updates db)
   \<and> list_all (\<lambda>row. list_ex (\<lambda>obj. o_id obj = krr_objective_id row) (objectives db)) (key_results db)
   \<and> list_all (\<lambda>row. list_ex (\<lambda>kr. krr_id kr = pu_keyResultId row) (key_results db)) (progress_updates db)"

section \<open>A concrete database\<close>

text \<open>
  The objective ``Learn Go'' of user 7 with target date 100 and two key results: three
  certifications by day 50 (reached) and a hundred hours by day 80 (not started).
\<close>

definition learn_go :: Objective where
  "learn_go = \<lparr>o_id = 1, o_userId = 7, o_title = ''Learn Go'', o_description = None,
                o_category = Skills, o_targetDate = 100, o_status = ObjActive\<rparr>"

definition kr_certs :: key_results_row where
  "kr_certs = \<lparr>krr_id = 2, krr_objective_id = 1, krr_description = ''Earn three certs'',
                krr_target_value = 3, krr_current_value = 3, krr_unit = ''certs'',
                krr_deadline = 50, krr_status = KrCompleted\<rparr>"

definition kr_hours :: key_results_row where
  "kr_hours = \<lparr>krr_id = 3, krr_objective_id = 1, krr_description = ''Practice 100 hours'',
                krr_target_value = 100, krr_current_value = 0, krr_unit = ''hours'',
                krr_deadline = 80, krr_status = KrNotStarted\<rparr>"

definition okr_db :: database where
  "okr_db = \<lparr>objectives = [learn_go], key_results = [kr_certs, kr_hours],
              progress_updates = [], next_uuid = 4\<rparr>"

definition record_hours :: "rat \<Rightarrow> UpdateProgressRequest" where
  "record_hours v = \<lparr>upr_keyResultId = 3, upr_valueRecorded = v, upr_notes = None\<rparr>"

text \<open>The same database with a third key result, two talks by day 90, and one progress update on it.\<close>

definition kr_talks :: key_results_row where
  "kr_talks = \<lparr>krr_id = 4, krr_objective_id = 1, krr_description = ''Give two talks'',
                krr_target_value = 2, krr_current_value = 1, krr_unit = ''talks'',
                krr_deadline = 90, krr_status = KrInProgress\<rparr>"

definition okr_db3 :: database where
  "okr_db3 = \<lparr>objectives = [learn_go], key_results = [kr_certs, kr_hours, kr_talks],
               progress_updates = [\<lparr>pu_id = 5, pu_keyResultId = 4, pu_valueRecorded = 1, pu_notes = None\<rparr>],
               next_uuid = 6\<rparr>"

definition status_only :: "string \<Rightarrow> PutObjectiveBody" where
  "status_only s = \<lparr>pob_title = None, pob_description = None, pob_category = None,
                    pob_targetDate = None, pob_status = Some s\<rparr>"

text \<open>
  The request that creates ``Learn Go'' in an empty database; the description of the second
  key result is left open.
\<close>

definition empty_db :: database where
  "empty_db = \<lparr>objectives = [], key_results = [], progress_updates = [], next_uuid = 0\<rparr>"

definition create_learn_go :: "string \<Rightarrow> CreateObjectiveRequest" where
  "create_learn_go d =
     \<lparr>cor_userId = 7, cor_title = ''Learn Go'', cor_description = None, cor_category = Skills,
      cor_targetDate = 100,
      cor_keyResults =
        [\<lparr>krs_description = ''Earn three certs'', krs_targetValue = 3, krs_unit = ''certs'',
          krs_deadline = 50\<rparr>,
         \<lparr>krs_description = d, krs_targetValue = 100, krs_unit = ''hours'', krs_deadline = 80\<rparr>]\<rparr>"

section \<open>Auxiliary lemmas\<close>

lemma numeric_weight_mono: "0 < a \<Longrightarrow> a \<le> b \<Longrightarrow> numeric_weight a \<le> numeric_weight b"
  by (auto simp: numeric_weight_def)

lemma numeric_weight_range: "- 1 \<le> numeric_weight x \<and> numeric_weight x \<le> 1"
  by (simp add: numeric_weight_def)

lemma select_div_scale_ge_8: "8 \<le> select_div_scale a b"
  using numeric_weight_range [of a] numeric_weight_range [of b]
  by (auto simp: select_div_scale_def Let_def)

lemma select_div_scale_ge_16: "0 < a \<Longrightarrow> a \<le> b \<Longrightarrow> 16 \<le> select_div_scale a b"
  using numeric_weight_mono [of a b]
  by (auto simp: select_div_scale_def Let_def)

lemma floor_half [simp]: "\<lfloor>1 / 2 :: rat\<rfloor> = 0"
  by (rule floor_unique) simp_all

lemma numeric_round_0 [simp]: "numeric_round s 0 = 0"
  by (simp add: numeric_round_def)

lemma numeric_round_nonpos: "v \<le> 0 \<Longrightarrow> numeric_round s v \<le> 0"
proof (cases "v = 0")
  case True
  then show ?thesis by simp
next
  case False
  assume "v \<le> 0"
  then have "0 \<le> (- v) * 10 ^ s" by (intro mult_nonneg_nonneg) simp_all
  then have "0 \<le> - v * 10 ^ s + 1 / 2" by simp
  then have "0 \<le> \<lfloor>- v * 10 ^ s + 1 / 2\<rfloor>" by simp
  with False \<open>v \<le> 0\<close> show ?thesis by (simp add: numeric_round_def)
qed

lemma numeric_round_error: "\<bar>numeric_round s v - v\<bar> \<le> 1 / (2 * 10 ^ s)"
proof -
  have *: "\<bar>of_int \<lfloor>y + 1 / 2\<rfloor> / 10 ^ s - y / 10 ^ s\<bar> \<le> 1 / (2 * 10 ^ s)" for y :: rat
  proof -
    have "\<bar>of_int \<lfloor>y + 1 / 2\<rfloor> - y\<bar> \<le> 1 / 2" by linarith
    then have "\<bar>of_int \<lfloor>y + 1 / 2\<rfloor> - y\<bar> / 10 ^ s \<le> (1 / 2) / 10 ^ s"
      by (intro divide_right_mono) simp_all
    then show ?thesis by (simp add: diff_divide_distrib [symmetric])
  qed
  show ?thesis
  proof (cases "0 \<le> v")
    case True
    with * [of "v * 10 ^ s"] show ?thesis by (simp add: numeric_round_def)
  next
    case False
    with * [of "- v * 10 ^ s"] show ?thesis by (simp add: numeric_round_def abs_minus_commute)
  qed
qed

lemma column_value_hundredths:
  assumes "decimal_10_2 x = Inr x"
  shows "\<exists>k :: int. x = of_int k / 100" and "\<bar>x\<bar> < 100000000"
proof -
  from assms have r: "numeric_round2 x = x" and "\<bar>x\<bar> < 100000000"
    by (auto simp: decimal_10_2_def Let_def split: if_splits)
  then show "\<bar>x\<bar> < 100000000" by simp
  show "\<exists>k :: int. x = of_int k / 100"
  proof (cases "0 \<le> x")
    case True
    with r have "x = of_int \<lfloor>x * 100 + 1 / 2\<rfloor> / 100" by (simp add: numeric_round2_def)
    then show ?thesis ..
  next
    case False
    with r have "x = of_int (- \<lfloor>- x * 100 + 1 / 2\<rfloor>) / 100" by (simp add: numeric_round2_def)
    then show ?thesis ..
  qed
qed

lemma numeric_div_pos:
  "0 < a \<Longrightarrow> 0 < b \<Longrightarrow> numeric_div a b = of_int \<lfloor>a / b * 10 ^ select_div_scale a b + 1 / 2\<rfloor> / 10 ^ select_div_scale a b"
  by (simp add: numeric_div_def numeric_round_def)

lemma numeric_div_ge_1:
  assumes "0 < a" "0 < b" "1 \<le> a / b"
  shows "1 \<le> numeric_div a b"
proof -
  let ?s = "select_div_scale a b"
  have "(of_int (10 ^ ?s) :: rat) \<le> a / b * 10 ^ ?s + 1 / 2"
    using assms(3) mult_right_mono [of 1 "a / b" "10 ^ ?s"] by simp
  then have "10 ^ ?s \<le> \<lfloor>a / b * 10 ^ ?s + 1 / 2\<rfloor>" by (simp only: le_floor_iff)
  then have "(of_int (10 ^ ?s) :: rat) \<le> of_int \<lfloor>a / b * 10 ^ ?s + 1 / 2\<rfloor>" by (simp only: of_int_le_iff)
  then show ?thesis using assms(1,2) by (simp add: numeric_div_pos le_divide_eq)
qed

lemma numeric_div_ge_half:
  assumes "0 < a" "0 < b" "1 / 2 \<le> a / b"
  shows "1 / 2 \<le> numeric_div a b"
proof -
  let ?s = "select_div_scale a b"
  from select_div_scale_ge_8 [of a b] obtain n where n: "?s = Suc n" by (cases ?s) auto
  have "(of_int (5 * 10 ^ n) :: rat) = (1 / 2) * 10 ^ ?s" by (simp add: n)
  also have "\<dots> \<le> a / b * 10 ^ ?s" using assms(3) by (intro mult_right_mono) simp_all
  finally have "(of_int (5 * 10 ^ n) :: rat) \<le> a / b * 10 ^ ?s + 1 / 2" by simp
  then have "5 * 10 ^ n \<le> \<lfloor>a / b * 10 ^ ?s + 1 / 2\<rfloor>" by (simp only: le_floor_iff)
  then have "(of_int (5 * 10 ^ n) :: rat) \<le> of_int \<lfloor>a / b * 10 ^ ?s + 1 / 2\<rfloor>" by (simp only: of_int_le_iff)
  then have "(1 / 2) * 10 ^ ?s \<le> (of_int \<lfloor>a / b * 10 ^ ?s + 1 / 2\<rfloor> :: rat)" by (simp add: n)
  then show ?thesis using assms(1,2) by (simp add: numeric_div_pos le_divide_eq)
qed

text \<open>Below a bound \<open>c\<close> that is a whole number of tenths, with a margin that the scale resolves.\<close>

lemma numeric_div_less:
  assumes ab: "0 < a" "0 < b" "a \<le> b"
    and c: "c = 1 \<or> c = 1 / 2"
    and margin: "a / b \<le> c - 1 / 20000000000"
  shows "numeric_div a b < c"
proof -
  let ?s = "select_div_scale a b"
  from select_div_scale_ge_16 [OF ab(1,3)] have s: "16 \<le> ?s" .
  then have P: "(10 :: rat) ^ 16 \<le> 10 ^ ?s" by (intro power_increasing) simp_all
  from s obtain n where n: "?s = Suc n" by (cases ?s) auto
  from c obtain m :: int where m: "(of_int m :: rat) = c * 10 ^ ?s"
  proof
    assume "c = 1"
    then have "(of_int (10 ^ ?s) :: rat) = c * 10 ^ ?s" by simp
    then show ?thesis by (rule that)
  next
    assume "c = 1 / 2"
    then have "(of_int (5 * 10 ^ n) :: rat) = c * 10 ^ ?s" by (simp add: n)
    then show ?thesis by (rule that)
  qed
  have "a / b * 10 ^ ?s \<le> (c - 1 / 20000000000) * 10 ^ ?s"
    using margin by (intro mult_right_mono) simp_all
  also have "\<dots> = c * 10 ^ ?s - 10 ^ ?s / 20000000000" by (simp add: algebra_simps)
  also have "\<dots> \<le> c * 10 ^ ?s - 10 ^ 16 / 20000000000"
    using P by (simp add: divide_right_mono)
  finally have "a / b * 10 ^ ?s + 1 / 2 < c * 10 ^ ?s" by simp
  then have "a / b * 10 ^ ?s + 1 / 2 < of_int m" by (simp only: m)
  then have "\<lfloor>a / b * 10 ^ ?s + 1 / 2\<rfloor> < m" by (simp only: floor_less_iff)
  then have "(of_int \<lfloor>a / b * 10 ^ ?s + 1 / 2\<rfloor> :: rat) < of_int m" by (simp only: of_int_less_iff)
  then have "(of_int \<lfloor>a / b * 10 ^ ?s + 1 / 2\<rfloor> :: rat) < c * 10 ^ ?s" by (simp only: m)
  then show ?thesis using ab(1,2) by (simp add: numeric_div_pos divide_less_eq)
qed

text \<open>Two column values whose quotient is below \<open>1\<close> or \<open>1 / 2\<close> are below it with a margin.\<close>

lemma column_quotient_margin:
  fixes a b c :: rat
  assumes a: "a = of_int ka / 100" and b: "b = of_int kb / 100"
    and pos: "0 < a" "0 < b" and bound: "b < 100000000"
    and c: "c = 1 \<or> c = 1 / 2" and less: "a / b < c"
  shows "a / b \<le> c - 1 / 20000000000"
proof -
  define A K :: rat where "A = of_int ka" and "K = of_int kb"
  from pos a b have k: "0 < ka" "0 < kb" by simp_all
  then have K0: "0 < K" by (simp add: K_def)
  from bound b have "kb < 10000000000" by simp
  then have "(of_int kb :: rat) < of_int 10000000000" by (simp only: of_int_less_iff)
  then have K1: "K < 10000000000" by (simp add: K_def)
  have q: "a / b = A / K" unfolding a b A_def K_def by simp
  from K0 K1 have inv: "1 / 10000000000 \<le> 1 / K"
    by (intro divide_left_mono) simp_all
  from c show ?thesis
  proof
    assume c1: "c = 1"
    with less q K0 have "A < K" by (simp add: divide_less_eq)
    then have "ka < kb" by (simp add: A_def K_def)
    then have "ka + 1 \<le> kb" by simp
    then have "(of_int (ka + 1) :: rat) \<le> of_int kb" by (simp only: of_int_le_iff)
    then have "A \<le> K - 1" by (simp add: A_def K_def)
    then have "A / K \<le> (K - 1) / K" using K0 by (intro divide_right_mono) simp_all
    also have "\<dots> = 1 - 1 / K" using K0 by (simp add: diff_divide_distrib)
    also have "\<dots> \<le> 1 - 1 / 10000000000" using inv by simp
    also have "\<dots> \<le> 1 - 1 / 20000000000" by simp
    finally have "A / K \<le> 1 - 1 / 20000000000" .
    then show ?thesis unfolding q c1 .
  next
    assume c2: "c = 1 / 2"
    with less q K0 have "2 * A < K" by (simp add: divide_less_eq)
    then have "(of_int (2 * ka) :: rat) < of_int kb" by (simp add: A_def K_def)
    then have "2 * ka < kb" by (simp only: of_int_less_iff)
    then have "2 * ka + 1 \<le> kb" by simp
    then have "(of_int (2 * ka + 1) :: rat) \<le> of_int kb" by (simp only: of_int_le_iff)
    then have "A \<le> (K - 1) / 2" by (simp add: A_def K_def)
    then have "A / K \<le> ((K - 1) / 2) / K" using K0 by (intro divide_right_mono) simp_all
    also have "\<dots> = 1 / 2 - (1 / K) / 2" using K0 by (simp add: diff_divide_distrib)
    also have "\<dots> \<le> 1 / 2 - (1 / 10000000000) / 2" using inv by simp
    also have "\<dots> = 1 / 2 - 1 / 20000000000" by simp
    finally have "A / K \<le> 1 / 2 - 1 / 20000000000" .
    then show ?thesis unfolding q c2 .
  qed
qed

lemma krr_status_update_key_result_status:
  "krr_status (update_key_result_status today NEW) =
     (if 100 \<le> calculate_completion_percentage (krr_current_value NEW) (krr_target_value NEW) then KrCompleted
      else if krr_current_value NEW \<le> 0 then KrNotStarted
      else if krr_deadline NEW - today < 14
              \<and> calculate_completion_percentage (krr_current_value NEW) (krr_target_value NEW) < 50 then KrAtRisk
      else KrInProgress)"
  by (simp add: update_key_result_status_def Let_def not_less)

lemma update_key_result_status_fields:
  "krr_id (update_key_result_status today NEW) = krr_id NEW"
  "krr_objective_id (update_key_result_status today NEW) = krr_objective_id NEW"
  "krr_description (update_key_result_status today NEW) = krr_description NEW"
  "krr_target_value (update_key_result_status today NEW) = krr_target_value NEW"
  "krr_current_value (update_key_result_status today NEW) = krr_current_value NEW"
  "krr_unit (update_key_result_status today NEW) = krr_unit NEW"
  "krr_deadline (update_key_result_status today NEW) = krr_deadline NEW"
  by (simp_all add: update_key_result_status_def Let_def)

lemma update_key_result_status_idem:
  "update_key_result_status today (update_key_result_status today NEW) = update_key_result_status today NEW"
  by (simp add: update_key_result_status_def Let_def)

lemma calculate_completion_percentage_0 [simp]: "calculate_completion_percentage 0 t = 0"
  by (simp add: calculate_completion_percentage_def numeric_div_def)

lemma calculate_completion_percentage_instances [simp]:
  "calculate_completion_percentage 100 100 = 100"
  "calculate_completion_percentage 101 100 = 100"
  "calculate_completion_percentage 30 100 = 30"
  "calculate_completion_percentage 40 100 = 40"
  by code_simp+

lemma abs_min_diff: "\<bar>min a c - min b c\<bar> \<le> \<bar>a - b\<bar>" for a b c :: rat
  by (auto simp: min_def)

lemma float64_0 [simp]: "float64 0 = 0"
  by (simp add: float64_def)

lemma float64_exponent_le:
  assumes "x \<noteq> 0"
  shows "power_int 2 (float64_exponent x) \<le> \<bar>x\<bar>"
proof -
  obtain p q where pq: "quotient_of \<bar>x\<bar> = (p, q)" by (cases "quotient_of \<bar>x\<bar>")
  then have q: "0 < q" and x: "\<bar>x\<bar> = of_int p / of_int q"
    by (rule quotient_of_denom_pos, rule quotient_of_div)
  from assms x q have p: "0 < p"
    by (metis abs_ge_zero divide_eq_0_iff less_le of_int_0 of_int_0_le_iff of_int_pos zero_le_divide_iff abs_eq_0 not_less)
  from bitlen_bounds [OF p] have lo: "2 ^ nat (bitlen p - 1) \<le> p" by simp
  from bitlen_bounds [OF q] have hi: "q < 2 ^ nat (bitlen q)" by simp
  have bp: "1 \<le> bitlen p" using p bitlen_nonneg [of p] bitlen_eq_zero_iff [of p] by linarith
  have bq: "0 \<le> bitlen q" by (rule bitlen_nonneg)
  have "(power_int 2 (bitlen p - bitlen q - 1) :: rat) = power_int 2 (bitlen p - 1 - bitlen q)"
    by (simp add: algebra_simps)
  also have "\<dots> = power_int 2 (bitlen p - 1) / power_int 2 (bitlen q)"
    by (rule power_int_diff) simp
  also have "\<dots> = 2 ^ nat (bitlen p - 1) / 2 ^ nat (bitlen q)"
    using bp bq by (simp add: power_int_def)
  also have "\<dots> \<le> of_int p / of_int q"
  proof (rule frac_le)
    from p show "(0 :: rat) \<le> of_int p" by simp
    from lo have "(of_int (2 ^ nat (bitlen p - 1)) :: rat) \<le> of_int p" by (simp only: of_int_le_iff)
    then show "(2 :: rat) ^ nat (bitlen p - 1) \<le> of_int p" by simp
    from q show "(0 :: rat) < of_int q" by simp
    from hi have "(of_int q :: rat) \<le> of_int (2 ^ nat (bitlen q))" by (simp only: of_int_le_iff)
    then show "(of_int q :: rat) \<le> 2 ^ nat (bitlen q)" by simp
  qed
  finally have "(power_int 2 (bitlen p - bitlen q - 1) :: rat) \<le> \<bar>x\<bar>" using x by simp
  then show ?thesis by (simp add: float64_exponent_def pq Let_def)
qed

lemma round_half_even_error: "\<bar>of_int (round_half_even y) - y\<bar> \<le> 1 / 2"
proof -
  have "of_int \<lfloor>y\<rfloor> \<le> y" "y < of_int \<lfloor>y\<rfloor> + 1" by linarith+
  then show ?thesis by (auto simp: round_half_even_def Let_def abs_le_iff)
qed

lemma float64_error: "\<bar>float64 x - x\<bar> \<le> \<bar>x\<bar> / 2 ^ 53"
proof (cases "x = 0")
  case True
  then show ?thesis by simp
next
  case False
  define ulp :: rat where "ulp = power_int 2 (float64_exponent x - 52)"
  have ulp: "0 < ulp" by (simp add: ulp_def zero_less_power_int)
  have "float64 x - x = (of_int (round_half_even (x / ulp)) - x / ulp) * ulp"
    using False ulp by (simp add: float64_def ulp_def [symmetric] Let_def left_diff_distrib)
  then have "\<bar>float64 x - x\<bar> = \<bar>of_int (round_half_even (x / ulp)) - x / ulp\<bar> * ulp"
    using ulp by (simp add: abs_mult)
  also have "\<dots> \<le> 1 / 2 * ulp"
    using ulp round_half_even_error [of "x / ulp"] by (intro mult_right_mono) simp_all
  also have "ulp = power_int 2 (float64_exponent x) / power_int 2 52"
    unfolding ulp_def by (rule power_int_diff) simp
  also have "1 / 2 * (power_int 2 (float64_exponent x) / power_int 2 52)
               = power_int 2 (float64_exponent x) / (2 ^ 53 :: rat)"
    by (simp add: power_int_def)
  also have "\<dots> \<le> \<bar>x\<bar> / 2 ^ 53"
    using float64_exponent_le [OF False] by (intro divide_right_mono) simp_all
  finally show ?thesis .
qed

lemma float64_bounds:
  assumes "0 \<le> x"
  shows "x * (1 - 1 / 2 ^ 53) \<le> float64 x" and "float64 x \<le> x * (1 + 1 / 2 ^ 53)"
proof -
  from float64_error [of x] assms have "\<bar>float64 x - x\<bar> \<le> x / 2 ^ 53" by simp
  then have "x - x / 2 ^ 53 \<le> float64 x" and "float64 x \<le> x + x / 2 ^ 53"
    by linarith+
  then show "x * (1 - 1 / 2 ^ 53) \<le> float64 x" and "float64 x \<le> x * (1 + 1 / 2 ^ 53)"
    by (simp_all add: right_diff_distrib distrib_left)
qed

lemma float64_nonneg:
  assumes "0 \<le> x"
  shows "0 \<le> float64 x"
proof -
  have "0 \<le> x * (1 - 1 / 2 ^ 53)" using assms by (intro mult_nonneg_nonneg) simp_all
  also have "\<dots> \<le> float64 x" using assms by (rule float64_bounds)
  finally show ?thesis .
qed

lemma float64_pos:
  assumes "0 < x"
  shows "0 < float64 x"
proof -
  have "0 < x * (1 - 1 / 2 ^ 53)" using assms by (intro mult_pos_pos) simp_all
  also have "\<dots> \<le> float64 x" using assms by (intro float64_bounds) simp
  finally show ?thesis .
qed

lemma Math_round_0 [simp]: "Math_round 0 = 0"
  by (simp add: Math_round_def)

lemma Math_round_error: "\<bar>Math_round s - s\<bar> \<le> 1 / 2"
proof -
  have "of_int \<lfloor>s + 1 / 2\<rfloor> \<le> s + 1 / 2" "s + 1 / 2 < of_int \<lfloor>s + 1 / 2\<rfloor> + 1" by linarith+
  then show ?thesis unfolding Math_round_def by linarith
qed

lemma Math_round_nonneg: "0 \<le> s \<Longrightarrow> 0 \<le> Math_round s"
  by (simp add: Math_round_def)

lemma float64_quotient_percent:
  fixes c t :: rat
  assumes c: "0 < c" and t: "0 < t"
  defines "p \<equiv> float64 (float64 (float64 c / float64 t) * 100)"
  shows "c / t * 100 * (1 - 5 / 2 ^ 53) \<le> p" and "p \<le> c / t * 100 * (1 + 5 / 2 ^ 53)"
proof -
  define u :: rat where "u = 1 / 2 ^ 53"
  have u: "0 < u" "u < 1" by (simp_all add: u_def)
  have U: "(1 + u) * (1 + u) * (1 + u) / (1 - u) \<le> 1 + 5 * u" unfolding u_def by simp
  have L: "1 - 5 * u \<le> (1 - u) * (1 - u) * (1 - u) / (1 + u)" unfolding u_def by simp
  have fl: "x * (1 - u) \<le> float64 x" "float64 x \<le> x * (1 + u)" if "0 \<le> x" for x
    unfolding u_def using float64_bounds [OF that] by simp_all
  define fc ft where "fc = float64 c" and "ft = float64 t"
  have fc: "c * (1 - u) \<le> fc" "fc \<le> c * (1 + u)" and ft: "t * (1 - u) \<le> ft" "ft \<le> t * (1 + u)"
    unfolding fc_def ft_def using c t by (simp_all add: fl)
  have fc0: "0 \<le> fc" and ft0: "0 < ft"
    unfolding fc_def ft_def using c t by (simp_all add: float64_nonneg float64_pos)
  have d_hi: "fc / ft \<le> (c * (1 + u)) / (t * (1 - u))"
  proof (rule frac_le)
    show "0 \<le> c * (1 + u)" using c u by simp
    show "fc \<le> c * (1 + u)" by (rule fc)
    show "0 < t * (1 - u)" using t u by simp
    show "t * (1 - u) \<le> ft" by (rule ft)
  qed
  have d_lo: "(c * (1 - u)) / (t * (1 + u)) \<le> fc / ft"
    by (rule frac_le) (use fc0 fc ft0 ft in simp_all)
  have d0: "0 \<le> fc / ft" using fc0 ft0 by simp
  define q where "q = float64 (fc / ft)"
  have q0: "0 \<le> q" unfolding q_def using d0 by (rule float64_nonneg)
  have "q \<le> fc / ft * (1 + u)" unfolding q_def using d0 by (rule fl)
  also have "\<dots> \<le> (c * (1 + u)) / (t * (1 - u)) * (1 + u)"
    using d_hi u by (intro mult_right_mono) simp_all
  finally have q_hi: "q \<le> (c * (1 + u)) / (t * (1 - u)) * (1 + u)" .
  have "(c * (1 - u)) / (t * (1 + u)) * (1 - u) \<le> fc / ft * (1 - u)"
    using d_lo u by (intro mult_right_mono) simp_all
  also have "\<dots> \<le> q" unfolding q_def using d0 by (rule fl)
  finally have q_lo: "(c * (1 - u)) / (t * (1 + u)) * (1 - u) \<le> q" .
  have p: "p = float64 (q * 100)" by (simp add: p_def q_def fc_def ft_def)
  have q100: "0 \<le> q * 100" using q0 by simp
  have "p \<le> q * 100 * (1 + u)" unfolding p using q100 by (rule fl)
  also have "\<dots> \<le> (c * (1 + u)) / (t * (1 - u)) * (1 + u) * 100 * (1 + u)"
    using q_hi u by (intro mult_right_mono) simp_all
  also have "\<dots> = c / t * 100 * ((1 + u) * (1 + u) * (1 + u) / (1 - u))"
    by simp
  also have "\<dots> \<le> c / t * 100 * (1 + 5 * u)"
    using U c t by (intro mult_left_mono) simp_all
  finally show "p \<le> c / t * 100 * (1 + 5 / 2 ^ 53)" by (simp add: u_def)
  have "c / t * 100 * (1 - 5 * u) \<le> c / t * 100 * ((1 - u) * (1 - u) * (1 - u) / (1 + u))"
    using L c t by (intro mult_left_mono) simp_all
  also have "\<dots> = (c * (1 - u)) / (t * (1 + u)) * (1 - u) * 100 * (1 - u)"
    by simp
  also have "\<dots> \<le> q * 100 * (1 - u)"
    using q_lo u by (intro mult_right_mono) simp_all
  also have "\<dots> \<le> p" unfolding p using q100 by (rule fl)
  finally show "c / t * 100 * (1 - 5 / 2 ^ 53) \<le> p" by (simp add: u_def)
qed

lemma mapRowToKeyResult_completionPercentage_close:
  assumes c: "0 \<le> krr_current_value row" and t: "0 \<le> krr_target_value row"
  shows "\<bar>kr_completionPercentage (mapRowToKeyResult row)
          - (if krr_target_value row = 0 then 0
             else min (krr_current_value row / krr_target_value row * 100) 100)\<bar>
         \<le> 1 / 200 + 1 / 1000000000000"
proof -
  define c t where "c = krr_current_value row" and "t = krr_target_value row"
  define exposed where ex: "exposed = kr_completionPercentage (mapRowToKeyResult row)"
  have exposed_def: "exposed = (let fc = float64 c; ft = float64 t;
      pct = (if ft = 0 then 0 else min (float64 (float64 (fc / ft) * 100)) 100)
    in float64 (Math_round (float64 (pct * 100)) / 100))"
    by (simp add: ex c_def t_def mapRowToKeyResult_def calculateCompletionPercentage_def
        parseFloat_def Let_def)
  have "\<bar>exposed - (if t = 0 then 0 else min (c / t * 100) 100)\<bar> \<le> 1 / 200 + 1 / 1000000000000"
  proof -
  consider (zero) "t = 0" | (none) "0 < t" "c = 0" | (pos) "0 < c" "0 < t"
    using c t by (fastforce simp: c_def t_def)
  then show ?thesis
  proof cases
    case zero
    then show ?thesis by (simp add: exposed_def)
  next
    case none
    from float64_pos [OF none(1)] none show ?thesis by (simp add: exposed_def)
  next
    case pos
    define p where "p = float64 (float64 (float64 c / float64 t) * 100)"
    define x where "x = c / t * 100"
    define m where "m = min p 100"
    define s where "s = float64 (m * 100)"
    define r where "r = Math_round s"
    have x0: "0 < x" using pos by (simp add: x_def)
    from float64_quotient_percent [OF pos] have plo: "x * (1 - 5 / 2 ^ 53) \<le> p"
      and phi: "p \<le> x * (1 + 5 / 2 ^ 53)" by (simp_all add: p_def x_def)
    have p0: "0 \<le> p"
      unfolding p_def using pos
      by (intro float64_nonneg mult_nonneg_nonneg divide_nonneg_nonneg) simp_all
    have mE: "\<bar>m - min x 100\<bar> \<le> 2 / 10000000000000"
    proof (cases "200 \<le> x")
      case True
      then have "100 \<le> x * (1 - 5 / 2 ^ 53)" by simp
      with plo have "100 \<le> p" by simp
      with True show ?thesis by (simp add: m_def)
    next
      case False
      then have "x * (5 / 2 ^ 53) \<le> 2 / 10000000000000" by simp
      moreover have "\<bar>p - x\<bar> \<le> x * (5 / 2 ^ 53)"
      proof (rule abs_leI)
        from phi show "p - x \<le> x * (5 / 2 ^ 53)" by (simp add: distrib_left)
        from plo have "x - p \<le> x * (5 / 2 ^ 53)" by (simp add: right_diff_distrib)
        then show "- (p - x) \<le> x * (5 / 2 ^ 53)" by simp
      qed
      ultimately have "\<bar>p - x\<bar> \<le> 2 / 10000000000000" by (rule order_trans [rotated])
      with abs_min_diff [of p 100 x] show ?thesis unfolding m_def by (rule order_trans)
    qed
    have m: "0 \<le> m" "m \<le> 100" using p0 by (simp_all add: m_def)
    have "\<bar>s - m * 100\<bar> \<le> \<bar>m * 100\<bar> / 2 ^ 53" unfolding s_def by (rule float64_error)
    also have "\<dots> \<le> 2 / 1000000000000" using m by simp
    finally have sm: "\<bar>s - m * 100\<bar> \<le> 2 / 1000000000000" .
    have s0: "0 \<le> s" unfolding s_def using m by (intro float64_nonneg) simp
    have rs: "\<bar>r - s\<bar> \<le> 1 / 2" unfolding r_def by (rule Math_round_error)
    have r0: "0 \<le> r" unfolding r_def using s0 by (rule Math_round_nonneg)
    have r1: "r \<le> 10001" using rs sm m by linarith
    have "\<bar>float64 (r / 100) - r / 100\<bar> \<le> \<bar>r / 100\<bar> / 2 ^ 53" by (rule float64_error)
    also have "\<dots> \<le> 1 / 10000000000000" using r0 r1 by simp
    finally have res: "\<bar>float64 (r / 100) - r / 100\<bar> \<le> 1 / 10000000000000" .
    have "\<bar>float64 (r / 100) - min x 100\<bar> \<le> 1 / 200 + 1 / 1000000000000"
      using res rs sm mE by linarith
    moreover have "exposed = float64 (r / 100)"
      using float64_pos [OF pos(2)] by (simp add: exposed_def r_def s_def m_def p_def)
    ultimately show ?thesis using pos by (simp add: x_def)
  qed
qed
  then show ?thesis unfolding ex c_def t_def .
qed

lemma abs_scale_100: "\<bar>a * 100 - b * 100\<bar> = \<bar>a - b\<bar> * 100" for a b :: rat
  by (simp add: abs_if)

lemma percentage_of_negative:
  "q < 0 \<Longrightarrow> r \<le> 0 \<Longrightarrow>
     (100 \<le> min (r * 100) 100 \<longleftrightarrow> 100 \<le> min (q * 100) 100)
     \<and> (min (r * 100) 100 < 50 \<longleftrightarrow> min (q * 100) 100 < 50)" for q r :: rat
  by (auto simp: min_def)

lemma percentage_of_quotient:
  "(1 \<le> r \<longleftrightarrow> 1 \<le> q) \<Longrightarrow> (r < 1 / 2 \<longleftrightarrow> q < 1 / 2) \<Longrightarrow>
     (100 \<le> min (r * 100) 100 \<longleftrightarrow> 100 \<le> min (q * 100) 100)
     \<and> (min (r * 100) 100 < 50 \<longleftrightarrow> min (q * 100) 100 < 50)" for q r :: rat
  by (auto simp: min_def)

lemma calculate_completion_percentage_close:
  "\<bar>calculate_completion_percentage c t - (if t = 0 then 0 else min (c / t * 100) 100)\<bar> \<le> 1 / 2000000"
proof (cases "t = 0")
  case True
  then show ?thesis by (simp add: calculate_completion_percentage_def)
next
  case False
  let ?s = "select_div_scale c t"
  have "(10 :: rat) ^ 8 \<le> 10 ^ ?s"
    using select_div_scale_ge_8 [of c t] by (intro power_increasing) simp_all
  then have "1 / (2 * 10 ^ ?s) \<le> 1 / (2 * (10 :: rat) ^ 8)"
    by (intro divide_left_mono) simp_all
  moreover have "\<bar>numeric_div c t - c / t\<bar> \<le> 1 / (2 * 10 ^ ?s)"
    unfolding numeric_div_def by (rule numeric_round_error)
  ultimately have "\<bar>numeric_div c t - c / t\<bar> \<le> 1 / (2 * 10 ^ 8)"
    by (rule order_trans [rotated])
  then have "\<bar>numeric_div c t - c / t\<bar> * 100 \<le> 1 / 2000000"
    by simp
  moreover have "\<bar>numeric_div c t * 100 - c / t * 100\<bar> = \<bar>numeric_div c t - c / t\<bar> * 100"
    by (rule abs_scale_100)
  ultimately have "\<bar>numeric_div c t * 100 - c / t * 100\<bar> \<le> 1 / 2000000"
    by simp
  with abs_min_diff [of "numeric_div c t * 100" 100 "c / t * 100"] False show ?thesis
    by (simp add: calculate_completion_percentage_def)
qed

lemma calculate_completion_percentage_thresholds:
  assumes c: "decimal_10_2 c = Inr c" and t: "decimal_10_2 t = Inr t" and c0: "0 \<le> c"
  shows "100 \<le> calculate_completion_percentage c t \<longleftrightarrow> 100 \<le> (if t = 0 then 0 else min (c / t * 100) 100)"
    and "calculate_completion_percentage c t < 50 \<longleftrightarrow> (if t = 0 then 0 else min (c / t * 100) 100) < 50"
proof -
  from column_value_hundredths [OF c] obtain kc where kc: "c = of_int kc / 100" by blast
  from column_value_hundredths [OF t] obtain kt where kt: "t = of_int kt / 100"
    and bound: "\<bar>t\<bar> < 100000000" by blast
  consider (zero) "t = 0 \<or> c = 0" | (neg) "0 < c" "t < 0" | (pos) "0 < c" "0 < t"
    using c0 by fastforce
  then have "(100 \<le> calculate_completion_percentage c t \<longleftrightarrow> 100 \<le> (if t = 0 then 0 else min (c / t * 100) 100))
      \<and> (calculate_completion_percentage c t < 50 \<longleftrightarrow> (if t = 0 then 0 else min (c / t * 100) 100) < 50)"
  proof cases
    case zero
    then show ?thesis by (auto simp: calculate_completion_percentage_def numeric_div_def)
  next
    case neg
    then have q: "c / t < 0" by (simp add: divide_pos_neg)
    then have "numeric_div c t \<le> 0" by (simp add: numeric_div_def numeric_round_nonpos)
    from percentage_of_negative [OF q this] neg show ?thesis
      by (simp add: calculate_completion_percentage_def)
  next
    case pos
    have one: "1 \<le> numeric_div c t \<longleftrightarrow> 1 \<le> c / t"
    proof
      assume r: "1 \<le> numeric_div c t"
      show "1 \<le> c / t"
      proof (rule ccontr)
        assume "\<not> 1 \<le> c / t"
        then have less: "c / t < 1" by simp
        with pos have "c \<le> t" by (simp add: divide_less_eq)
        moreover have "c / t \<le> 1 - 1 / 20000000000"
          using column_quotient_margin [OF kc kt pos _ _ less] bound by simp
        ultimately have "numeric_div c t < 1" using pos by (intro numeric_div_less) simp_all
        with r show False by simp
      qed
    qed (rule numeric_div_ge_1 [OF pos])
    have half: "numeric_div c t < 1 / 2 \<longleftrightarrow> c / t < 1 / 2"
    proof
      assume less: "c / t < 1 / 2"
      with pos have "c \<le> t" by (simp add: divide_less_eq)
      moreover have "c / t \<le> 1 / 2 - 1 / 20000000000"
        using column_quotient_margin [OF kc kt pos _ _ less] bound by simp
      ultimately show "numeric_div c t < 1 / 2" using pos by (intro numeric_div_less) simp_all
    next
      assume r: "numeric_div c t < 1 / 2"
      show "c / t < 1 / 2"
      proof (rule ccontr)
        assume "\<not> c / t < 1 / 2"
        then have "1 / 2 \<le> numeric_div c t" using pos by (intro numeric_div_ge_half) simp_all
        with r show False by simp
      qed
    qed
    from percentage_of_quotient [OF one half] pos show ?thesis
      by (simp add: calculate_completion_percentage_def)
  qed
  then show "100 \<le> calculate_completion_percentage c t \<longleftrightarrow> 100 \<le> (if t = 0 then 0 else min (c / t * 100) 100)"
    and "calculate_completion_percentage c t < 50 \<longleftrightarrow> (if t = 0 then 0 else min (c / t * 100) 100) < 50"
    by simp_all
qed

lemma update_rows_Inr_iff:
  "update_rows p f rows = Inr rows' \<longleftrightarrow>
     list_all2 (\<lambda>r r'. (if p r then f r else Inr r) = Inr r') rows rows'"
proof (induction rows arbitrary: rows')
  case Nil
  show ?case by auto
next
  case (Cons r rs)
  show ?case
  proof (cases rows')
    case Nil
    then show ?thesis by (auto split: sum.splits)
  next
    case (Cons r' rs')
    then show ?thesis using Cons.IH [of rs'] by (auto split: sum.splits)
  qed
qed

lemma update_rows_Inl_D:
  "update_rows p f rows = Inl e \<Longrightarrow> \<exists>r \<in> set rows. p r \<and> f r = Inl e"
  by (induction rows) (auto split: sum.splits if_splits)

lemma update_rows_total:
  "\<forall>r \<in> set rows. p r \<longrightarrow> (\<exists>r'. f r = Inr r') \<Longrightarrow> \<exists>rows'. update_rows p f rows = Inr rows'"
proof (induction rows)
  case Nil
  show ?case by simp
next
  case (Cons r rs)
  then obtain rs' where rs': "update_rows p f rs = Inr rs'" by auto
  show ?case
  proof (cases "p r")
    case True
    with Cons.prems obtain r' where "f r = Inr r'" by auto
    with True rs' show ?thesis by simp
  next
    case False
    with rs' show ?thesis by simp
  qed
qed

lemma list_all2_find_key:
  assumes "list_all2 R xs ys"
    and "\<And>x y. R x y \<Longrightarrow> key' y = key x"
    and "find (\<lambda>x. key x = k) xs = Some x"
  shows "\<exists>y. find (\<lambda>y. key' y = k) ys = Some y \<and> R x y"
  using assms(1,3)
proof (induction rule: list_all2_induct)
  case Nil
  then show ?case by simp
next
  case (Cons a as b bs)
  then show ?case using assms(2) [of a b] by (auto split: if_splits)
qed

lemma list_all2_find_key_None:
  assumes "list_all2 R xs ys"
    and "\<And>x y. R x y \<Longrightarrow> key' y = key x"
    and "find (\<lambda>x. key x = k) xs = None"
  shows "find (\<lambda>y. key' y = k) ys = None"
  using assms(1,3)
proof (induction rule: list_all2_induct)
  case Nil
  then show ?case by simp
next
  case (Cons a as b bs)
  then show ?case using assms(2) [of a b] by (auto split: if_splits)
qed

lemma distinct_key_unique:
  "distinct (map key rows) \<Longrightarrow> find (\<lambda>r. key r = k) rows = Some row \<Longrightarrow> r \<in> set rows \<Longrightarrow> key r = k \<Longrightarrow> r = row"
  by (induction rows) (auto split: if_splits simp: image_iff)

lemma key_results_checks_Inl: "key_results_checks row = Inl e \<Longrightarrow> \<exists>s. e = DbError s"
  by (auto simp: key_results_checks_def split: if_splits)

lemma key_results_checks_Inr: "key_results_checks row = Inr row' \<Longrightarrow> row' = row"
  by (auto simp: key_results_checks_def split: if_splits)

lemma objectives_checks_Inl: "objectives_checks today row = Inl e \<Longrightarrow> \<exists>s. e = DbError s"
  by (auto simp: objectives_checks_def split: if_splits)

lemma objectives_checks_Inr: "objectives_checks today row = Inr row' \<Longrightarrow> row' = row"
  by (auto simp: objectives_checks_def split: if_splits)

lemma decimal_10_2_Inl: "decimal_10_2 v = Inl e \<Longrightarrow> \<exists>s. e = DbError s"
  by (auto simp: decimal_10_2_def Let_def split: if_splits)

lemma decimal_10_2_Inr: "decimal_10_2 v = Inr r \<Longrightarrow> r = numeric_round2 v"
  by (auto simp: decimal_10_2_def Let_def split: if_splits)

lemma progress_updates_checks_Inl: "progress_updates_checks row = Inl e \<Longrightarrow> \<exists>s. e = DbError s"
  by (auto simp: progress_updates_checks_def split: if_splits)

lemma progress_updates_checks_Inr: "progress_updates_checks row = Inr row' \<Longrightarrow> row' = row"
  by (auto simp: progress_updates_checks_def split: if_splits)

lemma createProgressUpdate_Inl:
  "ProgressUpdateModel_createProgressUpdate today data db = Inl e \<Longrightarrow> \<exists>s. e = DbError s"
  unfolding ProgressUpdateModel_createProgressUpdate_def update_key_result_from_progress_def
    key_results_before_update_def
  by (auto split: sum.splits if_splits
      dest!: decimal_10_2_Inl progress_updates_checks_Inl update_rows_Inl_D key_results_checks_Inl)

lemma createProgressUpdate_Inr:
  assumes "ProgressUpdateModel_createProgressUpdate today data db = Inr (pu, db')"
  shows "pu = \<lparr>pu_id = next_uuid db, pu_keyResultId = cpd_keyResultId data,
               pu_valueRecorded = numeric_round2 (cpd_valueRecorded data),
               pu_notes = or_null (cpd_notes data)\<rparr>"
    and "progress_updates_checks pu = Inr pu"
    and "db' = db\<lparr>key_results := key_results db', progress_updates := progress_updates db @ [pu],
                  next_uuid := Suc (next_uuid db)\<rparr>"
    and "list_all2 (progress_row_step today pu) (key_results db) (key_results db')"
    and "find (\<lambda>r. krr_id r = cpd_keyResultId data) (key_results db) \<noteq> None"
proof -
  from assms obtain v row rows where
    v: "decimal_10_2 (cpd_valueRecorded data) = Inr v"
    and row: "progress_updates_checks
             \<lparr>pu_id = next_uuid db, pu_keyResultId = cpd_keyResultId data,
              pu_valueRecorded = v, pu_notes = or_null (cpd_notes data)\<rparr> = Inr row"
    and fk: "find (\<lambda>r. krr_id r = cpd_keyResultId data) (key_results db) \<noteq> None"
    and rows: "update_key_result_from_progress today row (key_results db) = Inr rows"
    and res: "pu = row" "db' = db\<lparr>key_results := rows, progress_updates := progress_updates db @ [row],
                                next_uuid := Suc (next_uuid db)\<rparr>"
    unfolding ProgressUpdateModel_createProgressUpdate_def
    by (auto split: sum.splits if_splits)
  from row have row_eq: "row = \<lparr>pu_id = next_uuid db, pu_keyResultId = cpd_keyResultId data,
              pu_valueRecorded = v, pu_notes = or_null (cpd_notes data)\<rparr>"
    by (rule progress_updates_checks_Inr)
  show "pu = \<lparr>pu_id = next_uuid db, pu_keyResultId = cpd_keyResultId data,
               pu_valueRecorded = numeric_round2 (cpd_valueRecorded data),
               pu_notes = or_null (cpd_notes data)\<rparr>"
    using res(1) row_eq decimal_10_2_Inr [OF v] by simp
  show "progress_updates_checks pu = Inr pu" using row row_eq res(1) by simp
  show "db' = db\<lparr>key_results := key_results db', progress_updates := progress_updates db @ [pu],
                  next_uuid := Suc (next_uuid db)\<rparr>"
    using res by simp
  have "list_all2 (\<lambda>r r'. (if krr_id r = pu_keyResultId row
           then key_results_before_update today True (r\<lparr>krr_current_value := pu_valueRecorded row\<rparr>)
           else Inr r) = Inr r') (key_results db) rows"
    using rows unfolding update_key_result_from_progress_def update_rows_Inr_iff .
  then have "list_all2 (progress_row_step today row) (key_results db) rows"
    by (rule list_all2_mono)
      (auto simp: progress_row_step_def key_results_before_update_def split: if_splits
        dest: key_results_checks_Inr)
  then show "list_all2 (progress_row_step today pu) (key_results db) (key_results db')"
    using res by simp
  show "find (\<lambda>r. krr_id r = cpd_keyResultId data) (key_results db) \<noteq> None" by (rule fk)
qed

lemma updateObjective_status_Inr:
  assumes "ObjectiveModel_updateObjective today ident
             \<lparr>uod_title = None, uod_description = None, uod_category = None,
              uod_targetDate = None, uod_status = Some st\<rparr> db = Inr (updated, db')"
  shows "db' = db\<lparr>objectives := objectives db'\<rparr>"
    and "list_all2 (status_row_step today ident st) (objectives db) (objectives db')"
    and "updated = ObjectiveModel_findObjectiveById db' ident"
proof -
  from assms obtain rows where
    rows: "update_rows (\<lambda>row. o_id row = ident)
                (\<lambda>row. case objectives_set \<lparr>uod_title = None, uod_description = None, uod_category = None,
              uod_targetDate = None, uod_status = Some st\<rparr> row of
                          Inl e \<Rightarrow> Inl e
                        | Inr new \<Rightarrow> objectives_checks today new)
                (objectives db) = Inr rows"
    and res: "updated = find (\<lambda>row. o_id row = ident) rows" "db' = db\<lparr>objectives := rows\<rparr>"
    unfolding ObjectiveModel_updateObjective_def by (auto split: sum.splits)
  show "db' = db\<lparr>objectives := objectives db'\<rparr>" using res by simp
  show "updated = ObjectiveModel_findObjectiveById db' ident"
    using res by (simp add: ObjectiveModel_findObjectiveById_def)
  have "list_all2 (status_row_step today ident st) (objectives db) rows"
    using rows [unfolded update_rows_Inr_iff]
    by (rule list_all2_mono)
      (auto simp: status_row_step_def objectives_set_def split: if_splits
        dest: objectives_checks_Inr)
  then show "list_all2 (status_row_step today ident st) (objectives db) (objectives db')"
    using res by simp
qed

lemma updateObjective_Inl:
  "ObjectiveModel_updateObjective today ident data db = Inl e \<Longrightarrow> \<exists>s. e = DbError s"
  unfolding ObjectiveModel_updateObjective_def objectives_set_def varchar_def
  by (auto split: sum.splits if_splits option.splits dest!: update_rows_Inl_D objectives_checks_Inl)

lemma status_row_step_cascade:
  "status_row_step today ident ObjCompleted r r' \<Longrightarrow> cascade_row_step r r'"
  by (auto simp: status_row_step_def cascade_row_step_def split: if_splits)

lemma checkAndUpdate_cases:
  assumes "checkAndUpdateObjectiveCompletion today objectiveId db = (res, db')"
  shows "(res = Inr () \<and> db' = db
            \<and> \<not> allCompleted (KeyResultModel_findKeyResultsByObjectiveId db objectiveId))
       \<or> (res = Inr () \<and> db' = db\<lparr>objectives := objectives db'\<rparr>
            \<and> allCompleted (KeyResultModel_findKeyResultsByObjectiveId db objectiveId)
            \<and> list_all2 (status_row_step today objectiveId ObjCompleted) (objectives db) (objectives db'))
       \<or> ((\<exists>s. res = Inl (DbError s)) \<and> db' = db
            \<and> allCompleted (KeyResultModel_findKeyResultsByObjectiveId db objectiveId))"
proof (cases "allCompleted (KeyResultModel_findKeyResultsByObjectiveId db objectiveId)")
  case False
  with assms show ?thesis by (simp add: checkAndUpdateObjectiveCompletion_def)
next
  case True
  show ?thesis
  proof (cases "ObjectiveModel_updateObjective today objectiveId
                   \<lparr>uod_title = None, uod_description = None, uod_category = None,
                    uod_targetDate = None, uod_status = Some ObjCompleted\<rparr> db")
    case (Inl e)
    with assms True updateObjective_Inl [OF Inl] show ?thesis
      by (auto simp add: checkAndUpdateObjectiveCompletion_def)
  next
    case (Inr p)
    obtain updated db1 where p: "p = (updated, db1)" by (cases p)
    from assms True Inr p have "res = Inr ()" "db' = db1"
      by (auto simp add: checkAndUpdateObjectiveCompletion_def)
    with updateObjective_status_Inr [OF Inr [unfolded p]] True show ?thesis by simp
  qed
qed

lemma checkAndUpdate_frame:
  assumes "checkAndUpdateObjectiveCompletion today objectiveId db = (res, db')"
  shows "db' = db\<lparr>objectives := objectives db'\<rparr>"
    and "list_all2 cascade_row_step (objectives db) (objectives db')"
proof -
  show "db' = db\<lparr>objectives := objectives db'\<rparr>"
    using checkAndUpdate_cases [OF assms] by auto
  have refl: "list_all2 cascade_row_step (objectives db) (objectives db)"
    by (simp add: list_all2_same cascade_row_step_def)
  from checkAndUpdate_cases [OF assms] show "list_all2 cascade_row_step (objectives db) (objectives db')"
  proof (elim disjE conjE)
    assume "list_all2 (status_row_step today objectiveId ObjCompleted) (objectives db) (objectives db')"
    then show ?thesis by (rule list_all2_mono) (rule status_row_step_cascade)
  qed (use refl in auto)
qed

lemma updateProgress_cases:
  assumes found: "KeyResultModel_findKeyResultById db (upr_keyResultId data) = Some keyResult"
    and call: "updateProgress today data db = (res, db')"
  shows "(upr_valueRecorded data < 0 \<and> res = Inl (AppError 400 ''INVALID_PROGRESS_VALUE'') \<and> db' = db)
       \<or> (\<not> upr_valueRecorded data < 0 \<and> db' = db
            \<and> (\<exists>s. res = Inl (DbError s)
                 \<and> ProgressUpdateModel_createProgressUpdate today
                     \<lparr>cpd_keyResultId = upr_keyResultId data,
                      cpd_valueRecorded = upr_valueRecorded data,
                      cpd_notes = upr_notes data\<rparr> db = Inl (DbError s)))
       \<or> (\<not> upr_valueRecorded data < 0
            \<and> (\<exists>pu db1 r2.
                  ProgressUpdateModel_createProgressUpdate today
                     \<lparr>cpd_keyResultId = upr_keyResultId data,
                      cpd_valueRecorded = upr_valueRecorded data,
                      cpd_notes = upr_notes data\<rparr> db = Inr (pu, db1)
                \<and> checkAndUpdateObjectiveCompletion today (kr_objectiveId keyResult) db1 = (r2, db')
                \<and> res = (case r2 of Inl e \<Rightarrow> Inl e | Inr u \<Rightarrow> Inr pu)))"
proof (cases "upr_valueRecorded data < 0")
  case True
  with found call show ?thesis by (simp add: updateProgress_def)
next
  case False
  show ?thesis
  proof (cases "ProgressUpdateModel_createProgressUpdate today
                     \<lparr>cpd_keyResultId = upr_keyResultId data,
                      cpd_valueRecorded = upr_valueRecorded data,
                      cpd_notes = upr_notes data\<rparr> db")
    case (Inl e)
    from createProgressUpdate_Inl [OF Inl] obtain s where "e = DbError s" ..
    with found call False Inl show ?thesis by (simp add: updateProgress_def)
  next
    case (Inr p)
    obtain pu db1 where p: "p = (pu, db1)" by (cases p)
    obtain r2 db2 where c: "checkAndUpdateObjectiveCompletion today (kr_objectiveId keyResult) db1 = (r2, db2)"
      by (cases "checkAndUpdateObjectiveCompletion today (kr_objectiveId keyResult) db1")
    from found call False Inr p c have "db' = db2" "res = (case r2 of Inl e \<Rightarrow> Inl e | Inr u \<Rightarrow> Inr pu)"
      by (auto simp add: updateProgress_def split: sum.splits)
    with False Inr p c show ?thesis by simp
  qed
qed

lemma findKeyResultById_Some:
  "KeyResultModel_findKeyResultById db k = Some keyResult \<Longrightarrow>
     \<exists>row. find (\<lambda>r. krr_id r = k) (key_results db) = Some row \<and> keyResult = mapRowToKeyResult row"
  by (auto simp: KeyResultModel_findKeyResultById_def)

lemma mapRowToKeyResult_fields:
  "kr_id (mapRowToKeyResult row) = krr_id row"
  "kr_objectiveId (mapRowToKeyResult row) = krr_objective_id row"
  "kr_targetValue (mapRowToKeyResult row) = krr_target_value row"
  "kr_currentValue (mapRowToKeyResult row) = krr_current_value row"
  "kr_deadline (mapRowToKeyResult row) = krr_deadline row"
  "kr_status (mapRowToKeyResult row) = krr_status row"
  by (simp_all add: mapRowToKeyResult_def Let_def)

lemma progress_row_step_keys:
  "progress_row_step today pu r r' \<Longrightarrow> krr_id r' = krr_id r"
  "progress_row_step today pu r r' \<Longrightarrow> krr_objective_id r' = krr_objective_id r"
  by (auto simp: progress_row_step_def update_key_result_status_fields split: if_splits)

lemma status_row_step_keys: "status_row_step today ident st r r' \<Longrightarrow> o_id r' = o_id r"
  by (auto simp: status_row_step_def split: if_splits)

lemmas okr_defs = learn_go_def kr_certs_def kr_hours_def okr_db_def record_hours_def

lemma numeric_round2_of_int: "numeric_round2 (of_int n) = of_int n"
proof -
  have "\<lfloor>(of_int n :: rat) * 100 + 1 / 2\<rfloor> = n * 100"
    by (rule floor_unique) simp_all
  moreover have "\<lfloor>- (of_int n :: rat) * 100 + 1 / 2\<rfloor> = - n * 100"
    by (rule floor_unique) simp_all
  ultimately show ?thesis by (simp add: numeric_round2_def)
qed

lemma numeric_round2_numeral [simp]:
  "numeric_round2 (numeral k) = numeral k" "numeric_round2 0 = 0" "numeric_round2 1 = 1"
  "numeric_round2 (- numeral k) = - numeral k"
  using numeric_round2_of_int [of "numeral k"] numeric_round2_of_int [of 0] numeric_round2_of_int [of 1]
    numeric_round2_of_int [of "- numeral k"]
  by simp_all

lemmas model_defs =
  updateProgress_def KeyResultModel_findKeyResultById_def KeyResultModel_findKeyResultsByObjectiveId_def
  ProgressUpdateModel_createProgressUpdate_def update_key_result_from_progress_def
  key_results_before_update_def key_results_checks_def progress_updates_checks_def objectives_checks_def
  update_key_result_status_def decimal_10_2_def
  or_null_def checkAndUpdateObjectiveCompletion_def allCompleted_def ObjectiveModel_updateObjective_def
  ObjectiveModel_findObjectiveById_def objectives_set_def varchar_def mapRowToKeyResult_def
  calculateCompletionPercentage_def Math_round_def

text \<open>
  The exposed percentage is rounded from the binary64 product, not from the exact one: for
  0.29 of 0.32 the exact percentage is 90.625, the product that \<open>Math.round\<close> receives is
  the binary64 number \<open>9062.499999999998\<close>, and the number exposed is the one nearest to
  90.62.
\<close>

lemma mapRowToKeyResult_rounds_in_binary64:
  "kr_completionPercentage (mapRowToKeyResult
       (kr_certs\<lparr>krr_target_value := 32 / 100, krr_current_value := 29 / 100\<rparr>)) = float64 (9062 / 100)
   \<and> fst (spec_computeState (32 / 100) (29 / 100) 50 0) = 90625 / 1000"
  by code_simp

lemma numeric_round2_nonneg: "0 \<le> v \<Longrightarrow> 0 \<le> numeric_round2 v"
  by (simp add: numeric_round2_def)

lemma decimal_10_2_fixed: "decimal_10_2 t = Inr t \<Longrightarrow> \<bar>t\<bar> < 100000000"
  by (auto simp: decimal_10_2_def Let_def split: if_splits)

lemma decimal_10_2_in_range:
  "0 \<le> v \<Longrightarrow> numeric_round2 v \<le> t \<Longrightarrow> decimal_10_2 t = Inr t \<Longrightarrow>
     decimal_10_2 v = Inr (numeric_round2 v)"
  using numeric_round2_nonneg [of v] decimal_10_2_fixed [of t]
  by (simp add: decimal_10_2_def Let_def)

lemma or_null_length: "(case notes of None \<Rightarrow> True | Some n \<Rightarrow> length n \<le> m) \<Longrightarrow>
    (case or_null notes of None \<Rightarrow> True | Some n \<Rightarrow> length n \<le> m)"
  by (auto simp: or_null_def split: option.splits)

lemma createProgressUpdate_total:
  assumes row: "find (\<lambda>r. krr_id r = cpd_keyResultId data) (key_results db) = Some row"
    and lo: "0 \<le> cpd_valueRecorded data"
    and hi: "numeric_round2 (cpd_valueRecorded data) \<le> krr_target_value row"
    and short: "case cpd_notes data of None \<Rightarrow> True | Some n \<Rightarrow> length n \<le> 1000"
    and ok: "constraints_hold today db"
  shows "\<exists>pu db1. ProgressUpdateModel_createProgressUpdate today data db = Inr (pu, db1)"
proof -
  let ?v = "numeric_round2 (cpd_valueRecorded data)"
  let ?pu = "\<lparr>pu_id = next_uuid db, pu_keyResultId = cpd_keyResultId data,
              pu_valueRecorded = ?v, pu_notes = or_null (cpd_notes data)\<rparr>"
  from row have row_in: "row \<in> set (key_results db)" by (auto simp: find_Some_iff)
  from ok row_in have row_ok: "key_results_checks row = Inr row"
    and row_t: "decimal_10_2 (krr_target_value row) = Inr (krr_target_value row)"
    and dist: "distinct (map krr_id (key_results db))"
    by (auto simp: constraints_hold_def list_all_iff)
  have v: "decimal_10_2 (cpd_valueRecorded data) = Inr ?v"
    using lo hi row_t by (rule decimal_10_2_in_range)
  have v0: "0 \<le> ?v" using lo by (rule numeric_round2_nonneg)
  have chk: "progress_updates_checks ?pu = Inr ?pu"
    using or_null_length [OF short] v0 by (simp add: progress_updates_checks_def)
  have "\<forall>r \<in> set (key_results db). krr_id r = pu_keyResultId ?pu \<longrightarrow>
          (\<exists>r'. key_results_before_update today True (r\<lparr>krr_current_value := pu_valueRecorded ?pu\<rparr>) = Inr r')"
  proof (intro ballI impI)
    fix r assume "r \<in> set (key_results db)" "krr_id r = pu_keyResultId ?pu"
    with dist row have "r = row" by (auto intro: distinct_key_unique)
    with row_ok v0 hi
    show "\<exists>r'. key_results_before_update today True (r\<lparr>krr_current_value := pu_valueRecorded ?pu\<rparr>) = Inr r'"
      by (auto simp: key_results_before_update_def key_results_checks_def
          update_key_result_status_fields split: if_splits)
  qed
  then have "\<exists>rows. update_key_result_from_progress today ?pu (key_results db) = Inr rows"
    unfolding update_key_result_from_progress_def by (rule update_rows_total)
  then obtain rows where rows: "update_key_result_from_progress today ?pu (key_results db) = Inr rows" ..
  show ?thesis
    using v chk row rows by (simp add: ProgressUpdateModel_createProgressUpdate_def)
qed

lemma updateObjective_status_total:
  assumes "list_all (\<lambda>row. objectives_checks today row = Inr row) (objectives db)"
  shows "\<exists>updated db'. ObjectiveModel_updateObjective today ident
             \<lparr>uod_title = None, uod_description = None, uod_category = None,
              uod_targetDate = None, uod_status = Some st\<rparr> db = Inr (updated, db')"
proof -
  let ?f = "\<lambda>row. case objectives_set \<lparr>uod_title = None, uod_description = None, uod_category = None,
              uod_targetDate = None, uod_status = Some st\<rparr> row of
                          Inl e \<Rightarrow> Inl e
                        | Inr new \<Rightarrow> objectives_checks today new"
  have "\<forall>r \<in> set (objectives db). o_id r = ident \<longrightarrow> (\<exists>r'. ?f r = Inr r')"
    using assms
    by (auto simp: list_all_iff objectives_set_def objectives_checks_def split: if_splits)
  then have "\<exists>rows. update_rows (\<lambda>row. o_id row = ident) ?f (objectives db) = Inr rows"
    by (rule update_rows_total)
  then obtain rows where "update_rows (\<lambda>row. o_id row = ident) ?f (objectives db) = Inr rows" ..
  then show ?thesis by (simp add: ObjectiveModel_updateObjective_def)
qed

lemma checkAndUpdate_total:
  assumes "list_all (\<lambda>row. objectives_checks today row = Inr row) (objectives db)"
  shows "\<exists>db'. checkAndUpdateObjectiveCompletion today objectiveId db = (Inr (), db')"
  using updateObjective_status_total [OF assms, of objectiveId ObjCompleted]
  by (auto simp: checkAndUpdateObjectiveCompletion_def Let_def)

lemma createProgressUpdate_above_target:
  assumes row: "find (\<lambda>r. krr_id r = cpd_keyResultId data) (key_results db) = Some row"
    and hi: "krr_target_value row < numeric_round2 (cpd_valueRecorded data)"
  shows "\<exists>s. ProgressUpdateModel_createProgressUpdate today data db = Inl (DbError s)"
proof (cases "ProgressUpdateModel_createProgressUpdate today data db")
  case (Inl e)
  with createProgressUpdate_Inl [OF Inl] show ?thesis by auto
next
  case (Inr p)
  obtain pu db1 where p: "p = (pu, db1)" by (cases p)
  note I = createProgressUpdate_Inr [OF Inr [unfolded p]]
  have "\<exists>y. find (\<lambda>r. krr_id r = cpd_keyResultId data) (key_results db1) = Some y
           \<and> progress_row_step today pu row y"
    by (rule list_all2_find_key [OF I(4) _ row]) (rule progress_row_step_keys(1))
  then obtain row' where row': "progress_row_step today pu row row'" by auto
  from row I(1) have k: "krr_id row = pu_keyResultId pu" by (auto simp: find_Some_iff)
  from I(1) have v: "pu_valueRecorded pu = numeric_round2 (cpd_valueRecorded data)" by simp
  from row' k have step: "row' = update_key_result_status today (row\<lparr>krr_current_value := pu_valueRecorded pu\<rparr>)
      \<and> key_results_checks row' = Inr row'"
    unfolding progress_row_step_def by auto
  then have "key_results_checks row' = Inr row'" ..
  moreover from step have "krr_current_value row' = pu_valueRecorded pu"
    and "krr_target_value row' = krr_target_value row"
    by (simp_all add: update_key_result_status_fields)
  ultimately have False using hi v
    by (simp add: key_results_checks_def split: if_splits)
  then show ?thesis ..
qed

lemma cascade_row_step_refl: "list_all2 cascade_row_step rows rows"
  by (simp add: list_all2_same cascade_row_step_def)

lemma cascade_row_step_trans:
  "cascade_row_step a b \<Longrightarrow> cascade_row_step b c \<Longrightarrow> cascade_row_step a c"
  by (auto simp: cascade_row_step_def)

lemma database_fields:
  "db' = db\<lparr>objectives := x\<rparr> \<Longrightarrow> key_results db' = key_results db"
  "db' = db\<lparr>objectives := x\<rparr> \<Longrightarrow> progress_updates db' = progress_updates db"
  "db' = db\<lparr>key_results := y, progress_updates := z, next_uuid := n\<rparr> \<Longrightarrow> objectives db' = objectives db"
  "db' = db\<lparr>key_results := y, progress_updates := z, next_uuid := n\<rparr> \<Longrightarrow> progress_updates db' = z"
  by simp_all

lemma updateProgress_frame:
  assumes "updateProgress today data db = (res, db')"
  shows "list_all2 cascade_row_step (objectives db) (objectives db')"
proof (cases "KeyResultModel_findKeyResultById db (upr_keyResultId data)")
  case None
  with assms show ?thesis by (simp add: updateProgress_def cascade_row_step_refl)
next
  case (Some keyResult)
  from updateProgress_cases [OF Some assms] show ?thesis
  proof (elim disjE conjE exE)
    fix pu db1 r2
    assume ins: "ProgressUpdateModel_createProgressUpdate today
                     \<lparr>cpd_keyResultId = upr_keyResultId data,
                      cpd_valueRecorded = upr_valueRecorded data,
                      cpd_notes = upr_notes data\<rparr> db = Inr (pu, db1)"
      and chk: "checkAndUpdateObjectiveCompletion today (kr_objectiveId keyResult) db1 = (r2, db')"
    from database_fields(3) [OF createProgressUpdate_Inr(3) [OF ins]]
    have "objectives db1 = objectives db" .
    with checkAndUpdate_frame(2) [OF chk] show ?thesis by simp
  qed (simp_all add: cascade_row_step_refl)
qed

lemma updateProgress_sequence_frame:
  "list_all2 cascade_row_step (objectives db) (objectives (updateProgress_sequence calls db))"
proof (induction calls arbitrary: db)
  case Nil
  show ?case by (simp add: cascade_row_step_refl)
next
  case (Cons c calls)
  obtain today data where c: "c = (today, data)" by (cases c)
  have "list_all2 cascade_row_step (objectives db) (objectives (snd (updateProgress today data db)))"
    by (rule updateProgress_frame [of today data db "fst (updateProgress today data db)"]) simp
  from list_all2_trans [OF cascade_row_step_trans this Cons.IH] c show ?case by simp
qed

lemma constraints_hold_okr_db: "constraints_hold 10 okr_db"
  by (simp add: constraints_hold_def okr_defs decimal_10_2_def varchar_def objectives_checks_def
      key_results_checks_def)

lemma list_all2_in_set2:
  "list_all2 R xs ys \<Longrightarrow> y \<in> set ys \<Longrightarrow> \<exists>x \<in> set xs. R x y"
  by (induction rule: list_all2_induct) auto

lemma createKeyResult_Inl:
  "KeyResultModel_createKeyResult today data db = Inl e \<Longrightarrow> \<exists>s. e = DbError s"
  unfolding KeyResultModel_createKeyResult_def varchar_def
  by (auto split: sum.splits if_splits dest!: decimal_10_2_Inl key_results_checks_Inl)

lemma createKeyResult_Inr:
  assumes "KeyResultModel_createKeyResult today data db = Inr (kr, db')"
  shows "\<exists>row. db' = db\<lparr>key_results := key_results db @ [row], next_uuid := Suc (next_uuid db)\<rparr>
           \<and> kr = mapRowToKeyResult row
           \<and> krr_id row = next_uuid db
           \<and> krr_objective_id row = ckd_objectiveId data
           \<and> key_results_checks row = Inr row
           \<and> update_key_result_status today row = row"
proof -
  from assms obtain new row where
    chk: "key_results_checks (update_key_result_status today new) = Inr row"
    and new: "krr_id new = next_uuid db" "krr_objective_id new = ckd_objectiveId data"
    and res: "kr = mapRowToKeyResult row"
      "db' = db\<lparr>key_results := key_results db @ [row], next_uuid := Suc (next_uuid db)\<rparr>"
    unfolding KeyResultModel_createKeyResult_def
    by (fastforce split: sum.splits if_splits)
  from key_results_checks_Inr [OF chk] have row: "row = update_key_result_status today new" .
  with chk new res show ?thesis
    by (intro exI [of _ "update_key_result_status today new"])
      (simp add: update_key_result_status_fields update_key_result_status_idem)
qed

lemma updateKeyResult_status_columns:
  assumes upd: "KeyResultModel_updateKeyResult today ident data db = Inr (updated, db')"
    and cols: "ukd_targetValue data \<noteq> None \<or> ukd_currentValue data \<noteq> None \<or> ukd_deadline data \<noteq> None"
    and row: "row \<in> set (key_results db')" "krr_id row = ident"
  shows "update_key_result_status today row = row"
proof -
  let ?f = "\<lambda>row. case key_results_set data row of
                          Inl e \<Rightarrow> Inl e
                        | Inr new \<Rightarrow>
                            key_results_before_update today
                              (ukd_targetValue data \<noteq> None \<or> ukd_currentValue data \<noteq> None
                                 \<or> ukd_deadline data \<noteq> None) new"
  from upd cols have "update_rows (\<lambda>row. krr_id row = ident) ?f (key_results db) = Inr (key_results db')"
    unfolding KeyResultModel_updateKeyResult_def by (auto split: sum.splits if_splits)
  then have "list_all2 (\<lambda>r r'. (if krr_id r = ident then ?f r else Inr r) = Inr r')
               (key_results db) (key_results db')"
    unfolding update_rows_Inr_iff .
  from list_all2_in_set2 [OF this row(1)] obtain r where
    r: "(if krr_id r = ident then ?f r else Inr r) = Inr row"
    by blast
  show ?thesis
  proof (cases "krr_id r = ident")
    case True
    with r cols obtain new where "key_results_checks (update_key_result_status today new) = Inr row"
      by (auto simp: key_results_before_update_def split: sum.splits)
    from key_results_checks_Inr [OF this] show ?thesis
      by (simp add: update_key_result_status_idem)
  next
    case False
    with r row(2) show ?thesis by simp
  qed
qed

lemmas okr3_defs = learn_go_def kr_certs_def kr_hours_def kr_talks_def okr_db3_def

lemma find_append_case:
  "find P (xs @ ys) = (case find P xs of None \<Rightarrow> find P ys | Some x \<Rightarrow> Some x)"
  by (induction xs) auto

lemma numeric_round2_minus_one [simp]: "numeric_round2 (- 1) = - 1"
  using numeric_round2_of_int [of "- 1"] by simp

lemma batch_row_step_Nil: "list_all2 (batch_row_step []) rows rows"
  by (simp add: list_all2_same batch_row_step_def)

lemma batch_row_step_Cons:
  assumes "progress_row_step today pu r r'" and "batch_row_step new r' r1"
  shows "batch_row_step (pu # new) r r1"
proof -
  from assms(1) have id: "krr_id r' = krr_id r" by (rule progress_row_step_keys)
  show ?thesis
  proof (cases "find (\<lambda>p. pu_keyResultId p = krr_id r) (rev new)")
    case (Some p)
    with assms(2) id show ?thesis by (simp add: batch_row_step_def find_append_case)
  next
    case None
    with assms(2) id have r1: "r1 = r'" by (simp add: batch_row_step_def)
    with assms(1) None show ?thesis
      by (auto simp: batch_row_step_def find_append_case progress_row_step_def
          update_key_result_status_fields split: if_splits)
  qed
qed

lemma batchUpdateProgress_process_Inr:
  assumes "batchUpdateProgress_process today updates results objectiveIds db = (Inr (results', objectiveIds'), db1)"
  shows "\<exists>new. results' = results @ new
           \<and> map pu_keyResultId new = map upr_keyResultId updates
           \<and> progress_updates db1 = progress_updates db @ new
           \<and> objectives db1 = objectives db
           \<and> list_all2 (batch_row_step new) (key_results db) (key_results db1)"
  using assms
proof (induction updates arbitrary: results objectiveIds db)
  case Nil
  then show ?case by (simp add: batch_row_step_Nil)
next
  case (Cons u updates)
  let ?data = "\<lparr>cpd_keyResultId = upr_keyResultId u, cpd_valueRecorded = upr_valueRecorded u,
                 cpd_notes = upr_notes u\<rparr>"
  from Cons.prems obtain keyResult pu dbu where
    found: "KeyResultModel_findKeyResultById db (upr_keyResultId u) = Some keyResult"
    and ins: "ProgressUpdateModel_createProgressUpdate today ?data db = Inr (pu, dbu)"
    and rest: "batchUpdateProgress_process today updates (results @ [pu])
                 (Set_add objectiveIds (kr_objectiveId keyResult)) dbu = (Inr (results', objectiveIds'), db1)"
    by (auto split: option.splits sum.splits)
  note I = createProgressUpdate_Inr [OF ins]
  from Cons.IH [OF rest] obtain new where new:
    "results' = (results @ [pu]) @ new"
    "map pu_keyResultId new = map upr_keyResultId updates"
    "progress_updates db1 = progress_updates dbu @ new"
    "objectives db1 = objectives dbu"
    "list_all2 (batch_row_step new) (key_results dbu) (key_results db1)"
    by blast
  have "list_all2 (batch_row_step (pu # new)) (key_results db) (key_results db1)"
    using list_all2_trans [OF _ I(4) new(5), of "batch_row_step (pu # new)"]
    by (blast intro: batch_row_step_Cons)
  moreover from I(1) have "pu_keyResultId pu = upr_keyResultId u" by simp
  moreover note database_fields(3) [OF I(3)] database_fields(4) [OF I(3)]
  ultimately show ?case
    using new by (intro exI [of _ "pu # new"]) simp
qed

lemma batchUpdateProgress_process_append:
  "batchUpdateProgress_process today (xs @ ys) results objectiveIds db =
     (case batchUpdateProgress_process today xs results objectiveIds db of
        (Inl e, db1) \<Rightarrow> (Inl e, db1)
      | (Inr (results', objectiveIds'), db1) \<Rightarrow>
          batchUpdateProgress_process today ys results' objectiveIds' db1)"
  by (induction xs arbitrary: results objectiveIds db) (auto split: option.splits sum.splits)

lemma batchUpdateProgress_process_Inl:
  "batchUpdateProgress_process today updates results objectiveIds db = (Inl e, db1) \<Longrightarrow>
     e = AppError 404 ''KEY_RESULT_NOT_FOUND'' \<or> (\<exists>s. e = DbError s)"
proof (induction updates arbitrary: results objectiveIds db)
  case Nil
  then show ?case by simp
next
  case (Cons u updates)
  then show ?case
    by (auto split: option.splits sum.splits dest: createProgressUpdate_Inl)
qed

lemma batchUpdateProgress_check_Inl:
  "batchUpdateProgress_check today objectiveIds db = (Inl e, db1) \<Longrightarrow> \<exists>s. e = DbError s"
proof (induction objectiveIds arbitrary: db)
  case Nil
  then show ?case by simp
next
  case (Cons i objectiveIds)
  obtain r2 db2 where c: "checkAndUpdateObjectiveCompletion today i db = (r2, db2)"
    by (cases "checkAndUpdateObjectiveCompletion today i db")
  with Cons checkAndUpdate_cases [OF c] show ?case
    by (auto split: sum.splits)
qed

lemma batchUpdateProgress_Inl:
  "fst (batchUpdateProgress today updates db) = Inl e \<Longrightarrow>
     e = AppError 404 ''KEY_RESULT_NOT_FOUND'' \<or> (\<exists>s. e = DbError s)"
  unfolding batchUpdateProgress_def
  by (auto split: prod.splits sum.splits
      dest: batchUpdateProgress_process_Inl batchUpdateProgress_check_Inl)

lemma batch_row_step_keys: "batch_row_step new r r1 \<Longrightarrow> krr_id r1 = krr_id r"
  by (simp add: batch_row_step_def)

lemma batchUpdateProgress_process_missing:
  assumes "\<exists>u \<in> set updates. KeyResultModel_findKeyResultById db (upr_keyResultId u) = None"
  shows "\<exists>e db1. batchUpdateProgress_process today updates results objectiveIds db = (Inl e, db1)"
  using assms
proof (induction updates arbitrary: results objectiveIds db)
  case Nil
  then show ?case by simp
next
  case (Cons u updates)
  let ?data = "\<lparr>cpd_keyResultId = upr_keyResultId u, cpd_valueRecorded = upr_valueRecorded u,
                 cpd_notes = upr_notes u\<rparr>"
  show ?case
  proof (cases "KeyResultModel_findKeyResultById db (upr_keyResultId u)")
    case None
    then show ?thesis by simp
  next
    case (Some keyResult)
    show ?thesis
    proof (cases "ProgressUpdateModel_createProgressUpdate today ?data db")
      case (Inl e)
      with Some show ?thesis by simp
    next
      case (Inr p)
      obtain pu dbu where p: "p = (pu, dbu)" by (cases p)
      note I = createProgressUpdate_Inr [OF Inr [unfolded p]]
      from Cons.prems Some obtain w where w: "w \<in> set updates"
        "find (\<lambda>r. krr_id r = upr_keyResultId w) (key_results db) = None"
        by (auto simp: KeyResultModel_findKeyResultById_def)
      have "find (\<lambda>r. krr_id r = upr_keyResultId w) (key_results dbu) = None"
        by (rule list_all2_find_key_None [OF I(4) _ w(2)]) (rule progress_row_step_keys(1))
      with w(1) have "\<exists>u \<in> set updates. KeyResultModel_findKeyResultById dbu (upr_keyResultId u) = None"
        by (auto simp: KeyResultModel_findKeyResultById_def)
      from Cons.IH [OF this] Some Inr p show ?thesis by simp
    qed
  qed
qed

lemma createObjective_Inl:
  "ObjectiveModel_createObjective today data db = Inl e \<Longrightarrow> \<exists>s. e = DbError s"
  unfolding ObjectiveModel_createObjective_def varchar_def
  by (auto split: sum.splits if_splits dest!: objectives_checks_Inl)

lemma createObjective_Inr:
  assumes "ObjectiveModel_createObjective today data db = Inr (objective, db')"
  shows "db' = db\<lparr>objectives := objectives db @ [objective], next_uuid := Suc (next_uuid db)\<rparr>"
    and "o_id objective = next_uuid db"
    and "o_status objective = ObjActive"
    and "objectives_checks today objective = Inr objective"
proof -
  from assms obtain new where
    chk: "objectives_checks today new = Inr objective"
    and new: "o_id new = next_uuid db" "o_status new = ObjActive"
    and res: "db' = db\<lparr>objectives := objectives db @ [objective], next_uuid := Suc (next_uuid db)\<rparr>"
    unfolding ObjectiveModel_createObjective_def
    by (fastforce split: sum.splits if_splits)
  from objectives_checks_Inr [OF chk] chk new res
  show "db' = db\<lparr>objectives := objectives db @ [objective], next_uuid := Suc (next_uuid db)\<rparr>"
    and "o_id objective = next_uuid db"
    and "o_status objective = ObjActive"
    and "objectives_checks today objective = Inr objective"
    by simp_all
qed

lemma Promise_all_createKeyResult_result:
  assumes "Promise_all_createKeyResult today ds db = (res, db')"
  shows "\<exists>rows. db' = db\<lparr>key_results := key_results db @ rows, next_uuid := next_uuid db + length rows\<rparr>
           \<and> list_all (\<lambda>row. krr_objective_id row \<in> ckd_objectiveId ` set ds) rows
           \<and> (case res of
                Inr krs \<Rightarrow> krs = map mapRowToKeyResult rows \<and> length rows = length ds
              | Inl e \<Rightarrow> (\<exists>s. e = DbError s) \<and> length rows < length ds)"
  using assms
proof (induction ds arbitrary: db res db')
  case Nil
  then show ?case by (intro exI [of _ "[]"]) auto
next
  case (Cons d ds)
  show ?case
  proof (cases "KeyResultModel_createKeyResult today d db")
    case (Inl e)
    obtain r2 db2 where rest: "Promise_all_createKeyResult today ds db = (r2, db2)"
      by (cases "Promise_all_createKeyResult today ds db")
    from Cons.IH [OF rest] obtain rows where rows:
      "db2 = db\<lparr>key_results := key_results db @ rows, next_uuid := next_uuid db + length rows\<rparr>"
      "list_all (\<lambda>row. krr_objective_id row \<in> ckd_objectiveId ` set ds) rows"
      and len: "case r2 of Inr krs \<Rightarrow> krs = map mapRowToKeyResult rows \<and> length rows = length ds
              | Inl e \<Rightarrow> (\<exists>s. e = DbError s) \<and> length rows < length ds"
      by blast
    from len have "length rows \<le> length ds" by (cases r2) auto
    note rows = rows this
    from Cons.prems Inl rest have "res = Inl e" "db' = db2" by simp_all
    with rows createKeyResult_Inl [OF Inl] show ?thesis
      by (intro exI [of _ rows]) (auto simp: list_all_iff)
  next
    case (Inr p)
    obtain kr db1 where p: "p = (kr, db1)" by (cases p)
    from createKeyResult_Inr [OF Inr [unfolded p]] obtain row where row:
      "db1 = db\<lparr>key_results := key_results db @ [row], next_uuid := Suc (next_uuid db)\<rparr>"
      "kr = mapRowToKeyResult row" "krr_objective_id row = ckd_objectiveId d"
      by blast
    obtain r2 db2 where rest: "Promise_all_createKeyResult today ds db1 = (r2, db2)"
      by (cases "Promise_all_createKeyResult today ds db1")
    from Cons.IH [OF rest] obtain rows where rows:
      "db2 = db1\<lparr>key_results := key_results db1 @ rows, next_uuid := next_uuid db1 + length rows\<rparr>"
      "list_all (\<lambda>row. krr_objective_id row \<in> ckd_objectiveId ` set ds) rows"
      "case r2 of Inr krs \<Rightarrow> krs = map mapRowToKeyResult rows \<and> length rows = length ds
              | Inl e \<Rightarrow> (\<exists>s. e = DbError s) \<and> length rows < length ds"
      by blast
    from Cons.prems Inr p rest have res: "res = (case r2 of Inl e \<Rightarrow> Inl e | Inr krs \<Rightarrow> Inr (kr # krs))"
      and db': "db' = db2"
      by (auto split: sum.splits)
    from row rows res db' show ?thesis
      by (intro exI [of _ "row # rows"]) (auto simp: list_all_iff split: sum.splits)
  qed
qed

lemmas create_defs =
  ObjectiveService_createObjectiveWithKeyResults_def ObjectiveModel_createObjective_def
  KeyResultModel_createKeyResult_def create_learn_go_def empty_db_def

section \<open>The key result state calculator\<close>

text \<open>
  Claim C2, as the code has it. For a target and a current value as the \<open>DECIMAL(10,2)\<close>
  columns hold them, the current value not negative (the CHECK constraint
  \<open>key_results_current_value_valid\<close> admits no other into the table), the trigger function
  sets the status of the first matching rule of the specification, evaluated on the exact
  percentage \<open>min(currentValue / targetValue * 100, 100)\<close>: completed from 100 percent, not
  started at a current value of 0, at risk with fewer than 14 days left and less than 50
  percent, in progress otherwise. The percentage that the SQL function returns is 0 for a
  target of 0, and differs from the exact one by at most \<open>0.0000005\<close>: the rounding of the
  division never moves it across 100 or 50. The percentage that \<open>mapRowToKeyResult\<close>
  exposes, calculated in binary64 and rounded to two decimals, differs from the exact one by
  at most \<open>0.005000000001\<close> when the target is not negative.
\<close>

theorem state_calculator_refines_spec:
  assumes "decimal_10_2 currentValue = Inr currentValue"
    and "decimal_10_2 targetValue = Inr targetValue"
    and "0 \<le> currentValue"
  shows "krr_status (update_key_result_status today
            (row\<lparr>krr_target_value := targetValue, krr_current_value := currentValue, krr_deadline := deadline\<rparr>))
           = snd (spec_computeState targetValue currentValue deadline today)
       \<and> (targetValue = 0 \<longrightarrow> calculate_completion_percentage currentValue targetValue = 0)
       \<and> \<bar>calculate_completion_percentage currentValue targetValue
            - fst (spec_computeState targetValue currentValue deadline today)\<bar> \<le> 1 / 2000000
       \<and> (0 \<le> targetValue \<longrightarrow>
            \<bar>kr_completionPercentage (mapRowToKeyResult
                 (row\<lparr>krr_target_value := targetValue, krr_current_value := currentValue, krr_deadline := deadline\<rparr>))
              - fst (spec_computeState targetValue currentValue deadline today)\<bar>
            \<le> 1 / 200 + 1 / 1000000000000)"
proof -
  let ?row = "row\<lparr>krr_target_value := targetValue, krr_current_value := currentValue, krr_deadline := deadline\<rparr>"
  have exact: "fst (spec_computeState targetValue currentValue deadline today)
                 = (if targetValue = 0 then 0 else min (currentValue / targetValue * 100) 100)"
    by (simp add: spec_computeState_def Let_def)
  have "krr_status (update_key_result_status today ?row)
          = snd (spec_computeState targetValue currentValue deadline today)"
    using assms calculate_completion_percentage_thresholds [OF assms]
    by (simp add: krr_status_update_key_result_status spec_computeState_def Let_def)
  moreover have "\<bar>calculate_completion_percentage currentValue targetValue
            - fst (spec_computeState targetValue currentValue deadline today)\<bar> \<le> 1 / 2000000"
    unfolding exact by (rule calculate_completion_percentage_close)
  moreover have "\<bar>kr_completionPercentage (mapRowToKeyResult ?row)
              - fst (spec_computeState targetValue currentValue deadline today)\<bar>
            \<le> 1 / 200 + 1 / 1000000000000" if "0 \<le> targetValue"
  proof -
    have sel: "krr_current_value ?row = currentValue" "krr_target_value ?row = targetValue"
      by simp_all
    have "0 \<le> krr_current_value ?row" "0 \<le> krr_target_value ?row"
      using assms(3) that by simp_all
    from mapRowToKeyResult_completionPercentage_close [OF this] show ?thesis
      by (simp only: exact sel)
  qed
  ultimately show ?thesis by (simp add: calculate_completion_percentage_def)
qed

text \<open>
  Two instances: 30 of 100 with five days left is at risk, the percentage of the SQL function
  is 30, and the exposed percentage is within the bound of 30; with a target of 0 the
  percentage is 0, and a current value of 5 is in progress.
\<close>

theorem state_calculator_refines_spec_witness:
  "decimal_10_2 30 = Inr 30 \<and> decimal_10_2 100 = Inr 100 \<and> (0 :: rat) \<le> 30 \<and> (0 :: rat) \<le> 100
   \<and> krr_status (update_key_result_status 0
        (kr_hours\<lparr>krr_target_value := 100, krr_current_value := 30, krr_deadline := 5\<rparr>)) = KrAtRisk
   \<and> calculate_completion_percentage 30 100 = 30
   \<and> \<bar>kr_completionPercentage (mapRowToKeyResult
          (kr_hours\<lparr>krr_target_value := 100, krr_current_value := 30, krr_deadline := 5\<rparr>)) - 30\<bar>
       \<le> 1 / 200 + 1 / 1000000000000
   \<and> decimal_10_2 5 = Inr 5 \<and> decimal_10_2 0 = Inr 0 \<and> (0 :: rat) \<le> 5
   \<and> krr_status (update_key_result_status 0
        (kr_hours\<lparr>krr_target_value := 0, krr_current_value := 5, krr_deadline := 50\<rparr>)) = KrInProgress
   \<and> calculate_completion_percentage 5 0 = 0"
proof -
  have d: "decimal_10_2 30 = Inr 30" "decimal_10_2 100 = Inr 100"
    and z: "decimal_10_2 5 = Inr 5" "decimal_10_2 0 = Inr 0"
    by (simp_all add: decimal_10_2_def)
  have exact: "spec_computeState 100 30 5 0 = (30, KrAtRisk)"
    "snd (spec_computeState 0 5 50 0) = KrInProgress"
    by (simp_all add: spec_computeState_def)
  from state_calculator_refines_spec [OF d, where today = 0 and row = kr_hours and deadline = 5]
    state_calculator_refines_spec [OF z, where today = 0 and row = kr_hours and deadline = 50] d z
  show ?thesis
    unfolding exact by simp
qed

text \<open>
  Claim C2 as stated fails. For one of three the SQL function returns
  \<open>33.33333333333333333300\<close>, and \<open>mapRowToKeyResult\<close> exposes the binary64 number
  nearest to 33.33: neither is the exact \<open>100 / 3\<close>. And the trigger function tests
  \<open>current_value > 0\<close>, so a negative current value, which it sees before the CHECK
  constraint rejects the row, is not started, where the rule \<open>currentValue = 0\<close> of the
  specification would not match.
\<close>

theorem state_calculator_differs_from_spec:
  "calculate_completion_percentage 1 3 \<noteq> fst (spec_computeState 3 1 50 0)
   \<and> kr_completionPercentage (mapRowToKeyResult (kr_certs\<lparr>krr_current_value := 1\<rparr>))
     \<noteq> fst (spec_computeState 3 1 50 0)
   \<and> krr_status (update_key_result_status 0 (kr_hours\<lparr>krr_current_value := - 1\<rparr>))
     \<noteq> snd (spec_computeState 100 (- 1) 80 0)"
  by code_simp

section \<open>The objective completion rule\<close>



section \<open>Recording progress\<close>

text \<open>
  Claim C1, as the code has it. When \<open>updateProgress\<close> on an existing key result returns
  successfully and every key result of the parent objective is completed afterwards, the
  parent objective has the status completed on return. The work is two autocommitted
  statements and not one transaction: the insert into \<open>progress_updates\<close>, whose trigger
  updates the key result in the same statement, commits first and leaves the objective as
  it was; the \<open>UPDATE objectives\<close> of the completion check is a second statement.
\<close>

theorem updateProgress_completes_objective:
  assumes call: "updateProgress today data db = (Inr progressUpdate, db')"
    and found: "KeyResultModel_findKeyResultById db (upr_keyResultId data) = Some keyResult"
    and complete: "\<forall>kr \<in> set (KeyResultModel_findKeyResultsByObjectiveId db' (kr_objectiveId keyResult)).
                 kr_status kr = KrCompleted"
    and parent: "ObjectiveModel_findObjectiveById db (kr_objectiveId keyResult) = Some objective"
  shows "ObjectiveModel_findObjectiveById db' (kr_objectiveId keyResult)
           = Some (objective\<lparr>o_status := ObjCompleted\<rparr>)
       \<and> (\<exists>db1. ProgressUpdateModel_createProgressUpdate today
                    \<lparr>cpd_keyResultId = upr_keyResultId data,
                     cpd_valueRecorded = upr_valueRecorded data,
                     cpd_notes = upr_notes data\<rparr> db = Inr (progressUpdate, db1)
               \<and> progress_updates db1 = progress_updates db @ [progressUpdate]
               \<and> map_option kr_currentValue (KeyResultModel_findKeyResultById db1 (upr_keyResultId data))
                    = Some (pu_valueRecorded progressUpdate)
               \<and> objectives db1 = objectives db
               \<and> checkAndUpdateObjectiveCompletion today (kr_objectiveId keyResult) db1 = (Inr (), db')
               \<and> db' = db1\<lparr>objectives := objectives db'\<rparr>)"
proof -
  let ?oid = "kr_objectiveId keyResult"
  let ?k = "upr_keyResultId data"
  from updateProgress_cases [OF found call] obtain pu db1 r2 where
    ins: "ProgressUpdateModel_createProgressUpdate today
                     \<lparr>cpd_keyResultId = ?k, cpd_valueRecorded = upr_valueRecorded data,
                      cpd_notes = upr_notes data\<rparr> db = Inr (pu, db1)"
    and chk: "checkAndUpdateObjectiveCompletion today ?oid db1 = (r2, db')"
    and res: "Inr progressUpdate = (case r2 of Inl e \<Rightarrow> Inl e | Inr u \<Rightarrow> Inr pu)"
    by auto
  from res have r2: "r2 = Inr ()" and pu: "pu = progressUpdate" by (auto split: sum.splits)
  note I = createProgressUpdate_Inr [OF ins]
  from I(1) have pu_k: "pu_keyResultId pu = ?k" by simp
  from findKeyResultById_Some [OF found] obtain row where
    row: "find (\<lambda>r. krr_id r = ?k) (key_results db) = Some row" "keyResult = mapRowToKeyResult row"
    by auto
  have "\<exists>y. find (\<lambda>r. krr_id r = ?k) (key_results db1) = Some y \<and> progress_row_step today pu row y"
    by (rule list_all2_find_key [OF I(4) _ row(1)]) (rule progress_row_step_keys(1))
  then obtain row' where
    row': "find (\<lambda>r. krr_id r = ?k) (key_results db1) = Some row'" "progress_row_step today pu row row'"
    by auto
  from row(1) have "krr_id row = ?k" by (auto simp: find_Some_iff)
  with row'(2) pu_k have row'_eq:
    "row' = update_key_result_status today (row\<lparr>krr_current_value := pu_valueRecorded pu\<rparr>)"
    by (simp add: progress_row_step_def)
  have cur: "map_option kr_currentValue (KeyResultModel_findKeyResultById db1 ?k) = Some (pu_valueRecorded pu)"
    using row'(1) row'_eq
    by (simp add: KeyResultModel_findKeyResultById_def mapRowToKeyResult_fields update_key_result_status_fields)
  from I(3) have frame1: "objectives db1 = objectives db"
    "progress_updates db1 = progress_updates db @ [pu]"
    by (metis database.select_convs(1) database.surjective database.update_convs(2,3,4),
        metis database.select_convs(3) database.surjective database.update_convs(3,4))
  from checkAndUpdate_frame(1) [OF chk] have frame2: "db' = db1\<lparr>objectives := objectives db'\<rparr>" .
  then have kr_same: "key_results db' = key_results db1"
    by (metis database.select_convs(2) database.surjective database.update_convs(1))
  have "row' \<in> set (key_results db1)" "krr_objective_id row' = ?oid"
    using row'(1) row(2) progress_row_step_keys(2) [OF row'(2)]
    by (auto simp: find_Some_iff mapRowToKeyResult_fields)
  then have nonempty: "KeyResultModel_findKeyResultsByObjectiveId db1 ?oid \<noteq> []"
    by (auto simp: KeyResultModel_findKeyResultsByObjectiveId_def filter_empty_conv)
  have all: "allCompleted (KeyResultModel_findKeyResultsByObjectiveId db1 ?oid)"
    using complete nonempty kr_same
    by (simp add: allCompleted_def list_all_iff KeyResultModel_findKeyResultsByObjectiveId_def)
  from checkAndUpdate_cases [OF chk] all r2
  have step: "list_all2 (status_row_step today ?oid ObjCompleted) (objectives db1) (objectives db')"
    by auto
  from parent frame1(1) have parent1: "find (\<lambda>r. o_id r = ?oid) (objectives db1) = Some objective"
    by (simp add: ObjectiveModel_findObjectiveById_def)
  have "\<exists>y. find (\<lambda>r. o_id r = ?oid) (objectives db') = Some y
            \<and> status_row_step today ?oid ObjCompleted objective y"
    by (rule list_all2_find_key [OF step _ parent1]) (rule status_row_step_keys)
  then obtain o' where
    o': "find (\<lambda>r. o_id r = ?oid) (objectives db') = Some o'"
        "status_row_step today ?oid ObjCompleted objective o'"
    by auto
  from parent have "o_id objective = ?oid"
    by (auto simp: ObjectiveModel_findObjectiveById_def find_Some_iff)
  with o' have "ObjectiveModel_findObjectiveById db' ?oid = Some (objective\<lparr>o_status := ObjCompleted\<rparr>)"
    by (simp add: ObjectiveModel_findObjectiveById_def status_row_step_def)
  moreover have "ProgressUpdateModel_createProgressUpdate today
                    \<lparr>cpd_keyResultId = ?k, cpd_valueRecorded = upr_valueRecorded data,
                     cpd_notes = upr_notes data\<rparr> db = Inr (progressUpdate, db1)"
    using ins pu by simp
  ultimately show ?thesis
    using frame1 frame2 cur chk r2 pu by blast
qed

text \<open>
  An instance: recording 100 hours on day 10 completes the second key result and with it
  the objective.
\<close>

theorem updateProgress_completes_objective_witness:
  "updateProgress 10 (record_hours 100) okr_db
     = (Inr \<lparr>pu_id = 4, pu_keyResultId = 3, pu_valueRecorded = 100, pu_notes = None\<rparr>,
        \<lparr>objectives = [learn_go\<lparr>o_status := ObjCompleted\<rparr>],
         key_results = [kr_certs, kr_hours\<lparr>krr_current_value := 100, krr_status := KrCompleted\<rparr>],
         progress_updates = [\<lparr>pu_id = 4, pu_keyResultId = 3, pu_valueRecorded = 100, pu_notes = None\<rparr>],
         next_uuid = 5\<rparr>)
   \<and> ObjectiveModel_findObjectiveById
         \<lparr>objectives = [learn_go\<lparr>o_status := ObjCompleted\<rparr>],
          key_results = [kr_certs, kr_hours\<lparr>krr_current_value := 100, krr_status := KrCompleted\<rparr>],
          progress_updates = [\<lparr>pu_id = 4, pu_keyResultId = 3, pu_valueRecorded = 100, pu_notes = None\<rparr>],
          next_uuid = 5\<rparr> 1
       = Some (learn_go\<lparr>o_status := ObjCompleted\<rparr>)"
proof -
  let ?pu = "\<lparr>pu_id = 4, pu_keyResultId = 3, pu_valueRecorded = 100, pu_notes = None\<rparr>"
  let ?db' = "\<lparr>objectives = [learn_go\<lparr>o_status := ObjCompleted\<rparr>],
         key_results = [kr_certs, kr_hours\<lparr>krr_current_value := 100, krr_status := KrCompleted\<rparr>],
         progress_updates = [?pu], next_uuid = 5\<rparr>"
  have call: "updateProgress 10 (record_hours 100) okr_db = (Inr ?pu, ?db')"
    by (simp add: okr_defs model_defs Let_def)
  have found: "KeyResultModel_findKeyResultById okr_db (upr_keyResultId (record_hours 100))
                 = Some (mapRowToKeyResult kr_hours)"
    by (simp add: okr_defs KeyResultModel_findKeyResultById_def)
  have oid: "kr_objectiveId (mapRowToKeyResult kr_hours) = 1"
    by (simp add: mapRowToKeyResult_fields kr_hours_def)
  have complete: "\<forall>kr \<in> set (KeyResultModel_findKeyResultsByObjectiveId ?db'
                     (kr_objectiveId (mapRowToKeyResult kr_hours))). kr_status kr = KrCompleted"
    unfolding oid by (simp add: KeyResultModel_findKeyResultsByObjectiveId_def mapRowToKeyResult_fields okr_defs)
  have parent: "ObjectiveModel_findObjectiveById okr_db (kr_objectiveId (mapRowToKeyResult kr_hours))
                  = Some learn_go"
    unfolding oid by (simp add: ObjectiveModel_findObjectiveById_def okr_defs)
  from updateProgress_completes_objective [OF call found complete parent] call show ?thesis unfolding oid by simp
qed

text \<open>
  Claim C1 as stated fails. PostgreSQL tests every CHECK constraint of \<open>objectives\<close> on each
  row an \<open>UPDATE\<close> writes, and \<open>objectives_target_date_future\<close> compares with
  \<open>CURRENT_DATE\<close>. On day 101, after the target date 100, recording the last 100 hours
  commits the progress update and completes the key result, so that every key result is
  completed; the update of the objective is then rejected, the call throws, and the
  objective is still active.
\<close>

theorem updateProgress_objective_update_fails_after_commit:
  "fst (updateProgress 101 (record_hours 100) okr_db) = Inl (DbError ''objectives_target_date_future'')
   \<and> progress_updates (snd (updateProgress 101 (record_hours 100) okr_db))
       = [\<lparr>pu_id = 4, pu_keyResultId = 3, pu_valueRecorded = 100, pu_notes = None\<rparr>]
   \<and> map kr_status (KeyResultModel_findKeyResultsByObjectiveId
         (snd (updateProgress 101 (record_hours 100) okr_db)) 1) = [KrCompleted, KrCompleted]
   \<and> map o_status (objectives (snd (updateProgress 101 (record_hours 100) okr_db))) = [ObjActive]"
  by (simp add: okr_defs model_defs Let_def)

text \<open>
  Claim C3, as the code has it. On an existing key result, \<open>updateProgress\<close> fails with an
  application error exactly when the value is negative: a 400 \<open>INVALID_PROGRESS_VALUE\<close>,
  with nothing written. A value that, as stored (rounded to two decimals), exceeds the
  target value is not checked by the service; the database rejects the statement (the CHECK
  constraint of \<open>key_results\<close>, reached through the trigger), the error is PostgreSQL's, and
  nothing is written either. A value that is not negative and as stored within the target,
  with notes of at most 1000 characters, on a database whose rows satisfy their constraints
  at the date of the call, is recorded and the call succeeds.
\<close>

theorem updateProgress_validation:
  assumes found: "KeyResultModel_findKeyResultById db (upr_keyResultId data) = Some keyResult"
  shows "((\<exists>statusCode code. fst (updateProgress today data db) = Inl (AppError statusCode code))
            \<longleftrightarrow> upr_valueRecorded data < 0)
       \<and> (upr_valueRecorded data < 0 \<longrightarrow>
            updateProgress today data db = (Inl (AppError 400 ''INVALID_PROGRESS_VALUE''), db))
       \<and> (0 \<le> upr_valueRecorded data
            \<and> kr_targetValue keyResult < numeric_round2 (upr_valueRecorded data) \<longrightarrow>
            (\<exists>s. updateProgress today data db = (Inl (DbError s), db)))
       \<and> (0 \<le> upr_valueRecorded data
            \<and> numeric_round2 (upr_valueRecorded data) \<le> kr_targetValue keyResult
            \<and> (case upr_notes data of None \<Rightarrow> True | Some n \<Rightarrow> length n \<le> 1000)
            \<and> constraints_hold today db \<longrightarrow>
            (\<exists>pu db'. updateProgress today data db = (Inr pu, db')
               \<and> pu_valueRecorded pu = numeric_round2 (upr_valueRecorded data)
               \<and> progress_updates db' = progress_updates db @ [pu]))"
proof -
  let ?data = "\<lparr>cpd_keyResultId = upr_keyResultId data,
                 cpd_valueRecorded = upr_valueRecorded data, cpd_notes = upr_notes data\<rparr>"
  obtain res db' where call: "updateProgress today data db = (res, db')"
    by (cases "updateProgress today data db")
  note cases = updateProgress_cases [OF found call]
  from findKeyResultById_Some [OF found] obtain row where
    row: "find (\<lambda>r. krr_id r = upr_keyResultId data) (key_results db) = Some row"
         "keyResult = mapRowToKeyResult row"
    by auto
  have neg: "upr_valueRecorded data < 0 \<Longrightarrow>
               updateProgress today data db = (Inl (AppError 400 ''INVALID_PROGRESS_VALUE''), db)"
    using found by (simp add: updateProgress_def)
  have app: "\<exists>statusCode code. fst (updateProgress today data db) = Inl (AppError statusCode code)
               \<Longrightarrow> upr_valueRecorded data < 0"
  proof -
    assume "\<exists>statusCode code. fst (updateProgress today data db) = Inl (AppError statusCode code)"
    then obtain statusCode code where res: "res = Inl (AppError statusCode code)"
      using call by auto
    show "upr_valueRecorded data < 0"
    proof (rule ccontr)
      assume pos: "\<not> upr_valueRecorded data < 0"
      with cases res obtain pu :: ProgressUpdate and db1 r2 where
        chk: "checkAndUpdateObjectiveCompletion today (kr_objectiveId keyResult) db1 = (r2, db')"
        and r2: "Inl (AppError statusCode code) = (case r2 of Inl e \<Rightarrow> Inl e | Inr u \<Rightarrow> Inr pu)"
        by auto
      from r2 have "r2 = Inl (AppError statusCode code)" by (auto split: sum.splits)
      with checkAndUpdate_cases [OF chk] show False by auto
    qed
  qed
  have above: "\<exists>s. updateProgress today data db = (Inl (DbError s), db)"
    if "0 \<le> upr_valueRecorded data" "kr_targetValue keyResult < numeric_round2 (upr_valueRecorded data)"
  proof -
    from createProgressUpdate_above_target [of ?data db row today] row that(2)
    obtain s where "ProgressUpdateModel_createProgressUpdate today ?data db = Inl (DbError s)"
      by (auto simp: mapRowToKeyResult_fields)
    with found that(1) show ?thesis by (simp add: updateProgress_def)
  qed
  have within: "\<exists>pu db'. updateProgress today data db = (Inr pu, db')
               \<and> pu_valueRecorded pu = numeric_round2 (upr_valueRecorded data)
               \<and> progress_updates db' = progress_updates db @ [pu]"
    if lo: "0 \<le> upr_valueRecorded data"
      and hi: "numeric_round2 (upr_valueRecorded data) \<le> kr_targetValue keyResult"
      and short: "case upr_notes data of None \<Rightarrow> True | Some n \<Rightarrow> length n \<le> 1000"
      and ok: "constraints_hold today db"
  proof -
    from createProgressUpdate_total [of ?data db row today] row lo hi short ok
    obtain pu db1 where ins: "ProgressUpdateModel_createProgressUpdate today ?data db = Inr (pu, db1)"
      by (auto simp: mapRowToKeyResult_fields)
    note I = createProgressUpdate_Inr [OF ins]
    from I(3) have frame1: "objectives db1 = objectives db"
      "progress_updates db1 = progress_updates db @ [pu]"
      by (metis database.select_convs(1) database.surjective database.update_convs(2,3,4),
          metis database.select_convs(3) database.surjective database.update_convs(3,4))
    from ok frame1(1) have "list_all (\<lambda>row. objectives_checks today row = Inr row) (objectives db1)"
      by (simp add: constraints_hold_def)
    from checkAndUpdate_total [OF this] obtain db2 where
      chk: "checkAndUpdateObjectiveCompletion today (kr_objectiveId keyResult) db1 = (Inr (), db2)"
      by blast
    from checkAndUpdate_frame(1) [OF chk] have "progress_updates db2 = progress_updates db1"
      by (metis database.select_convs(3) database.surjective database.update_convs(1))
    moreover have "updateProgress today data db = (Inr pu, db2)"
      using found lo ins chk by (simp add: updateProgress_def)
    ultimately show ?thesis using I(1) frame1(2) by simp
  qed
  from neg app above within show ?thesis by (intro conjI impI iffI) auto
qed

text \<open>
  An instance: 40 hours are recorded, \<open>-1\<close> is refused with the 400.
\<close>

theorem updateProgress_validation_witness:
  "KeyResultModel_findKeyResultById okr_db (upr_keyResultId (record_hours 40)) = Some (mapRowToKeyResult kr_hours)
   \<and> constraints_hold 10 okr_db
   \<and> fst (updateProgress 10 (record_hours 40) okr_db)
       = Inr \<lparr>pu_id = 4, pu_keyResultId = 3, pu_valueRecorded = 40, pu_notes = None\<rparr>
   \<and> updateProgress 10 (record_hours (- 1)) okr_db = (Inl (AppError 400 ''INVALID_PROGRESS_VALUE''), okr_db)"
proof -
  have found: "KeyResultModel_findKeyResultById okr_db (upr_keyResultId (record_hours v))
                 = Some (mapRowToKeyResult kr_hours)" for v
    by (simp add: okr_defs KeyResultModel_findKeyResultById_def)
  have ok: "constraints_hold 10 okr_db"
    by (simp add: constraints_hold_def okr_defs decimal_10_2_def varchar_def objectives_checks_def
        key_results_checks_def)
  have val: "fst (updateProgress 10 (record_hours 40) okr_db)
       = Inr \<lparr>pu_id = 4, pu_keyResultId = 3, pu_valueRecorded = 40, pu_notes = None\<rparr>"
    by (simp add: okr_defs model_defs Let_def)
  from updateProgress_validation [OF found [of "- 1"], where today = 10] have
    "updateProgress 10 (record_hours (- 1)) okr_db = (Inl (AppError 400 ''INVALID_PROGRESS_VALUE''), okr_db)"
    by (simp add: record_hours_def)
  with found [of 40] ok val show ?thesis by simp
qed

text \<open>
  Claim C3 as stated fails: 101 hours against a target of 100 are refused by the CHECK
  constraint \<open>key_results_current_value_valid\<close>, a database error and not a validation error
  of the service.
\<close>

theorem updateProgress_above_target_database_error:
  "updateProgress 10 (record_hours 101) okr_db = (Inl (DbError ''key_results_current_value_valid''), okr_db)"
  by (simp add: okr_defs model_defs Let_def)

text \<open>
  Claim C7, as the code has it. Over any sequence of \<open>updateProgress\<close> calls the rows of
  \<open>objectives\<close> stay in place and each is either as it was or as it was with the status
  completed; a row that is completed is never changed, whatever happens to its key results.
  The cascade does not read the current status: it writes completed over active, archived
  and abandoned alike.
\<close>

theorem cascade_only_completes:
  "list_all2 cascade_row_step (objectives db) (objectives (updateProgress_sequence calls db))
   \<and> list_all2 (\<lambda>r r'. o_status r = ObjCompleted \<longrightarrow> r' = r)
        (objectives db) (objectives (updateProgress_sequence calls db))"
proof
  show "list_all2 cascade_row_step (objectives db) (objectives (updateProgress_sequence calls db))"
    by (rule updateProgress_sequence_frame)
  then show "list_all2 (\<lambda>r r'. o_status r = ObjCompleted \<longrightarrow> r' = r)
        (objectives db) (objectives (updateProgress_sequence calls db))"
    by (rule list_all2_mono) (auto simp: cascade_row_step_def)
qed

text \<open>
  An instance: 100 hours on day 10 complete the objective; 40 hours on day 20 take the key
  result back to in progress, and the objective stays completed.
\<close>

theorem cascade_only_completes_witness:
  "objectives (updateProgress_sequence [(10, record_hours 100)] okr_db) = [learn_go\<lparr>o_status := ObjCompleted\<rparr>]
   \<and> map krr_status (key_results (updateProgress_sequence [(10, record_hours 100), (20, record_hours 40)] okr_db))
       = [KrCompleted, KrInProgress]
   \<and> objectives (updateProgress_sequence [(10, record_hours 100), (20, record_hours 40)] okr_db)
       = [learn_go\<lparr>o_status := ObjCompleted\<rparr>]"
proof -
  have one: "updateProgress_sequence [(10, record_hours 100)] okr_db
      = \<lparr>objectives = [learn_go\<lparr>o_status := ObjCompleted\<rparr>],
         key_results = [kr_certs, kr_hours\<lparr>krr_current_value := 100, krr_status := KrCompleted\<rparr>],
         progress_updates = [\<lparr>pu_id = 4, pu_keyResultId = 3, pu_valueRecorded = 100, pu_notes = None\<rparr>],
         next_uuid = 5\<rparr>"
    by (simp add: okr_defs model_defs Let_def)
  have two: "map krr_status (key_results (updateProgress_sequence [(20, record_hours 40)]
               (updateProgress_sequence [(10, record_hours 100)] okr_db))) = [KrCompleted, KrInProgress]"
    unfolding one by (simp add: okr_defs model_defs Let_def)
  have seq: "updateProgress_sequence [(10, record_hours 100), (20, record_hours 40)] okr_db
        = updateProgress_sequence [(20, record_hours 40)] (updateProgress_sequence [(10, record_hours 100)] okr_db)"
    by simp
  from cascade_only_completes [of "updateProgress_sequence [(10, record_hours 100)] okr_db" "[(20, record_hours 40)]"]
  have "objectives (updateProgress_sequence [(20, record_hours 40)]
               (updateProgress_sequence [(10, record_hours 100)] okr_db)) = [learn_go\<lparr>o_status := ObjCompleted\<rparr>]"
    unfolding one by (simp add: list_all2_Cons1 learn_go_def)
  with one two seq show ?thesis by simp
qed

text \<open>
  Claim C7 as stated fails: on an archived objective, recording the last 100 hours sets the
  status to completed.
\<close>

theorem cascade_completes_archived_objective:
  "map o_status (objectives (okr_db\<lparr>objectives := [learn_go\<lparr>o_status := ObjArchived\<rparr>]\<rparr>)) = [ObjArchived]
   \<and> map o_status (objectives (snd (updateProgress 10 (record_hours 100)
        (okr_db\<lparr>objectives := [learn_go\<lparr>o_status := ObjArchived\<rparr>]\<rparr>)))) = [ObjCompleted]"
  by (simp add: okr_defs model_defs Let_def)

section \<open>Updating the status of an objective\<close>

text \<open>
  Claim C8, as the code has it. The route validates the requested status, not the
  transition: for the owner of an existing objective, a request that names one of the four
  statuses sets the stored status to it whatever the current status is (on a database whose
  rows satisfy their constraints at the date of the call), and a request that names anything
  else is refused with 400 \<open>INVALID_STATUS\<close> and changes nothing.
\<close>

theorem put_objective_any_status:
  assumes existing: "ObjectiveModel_findObjectiveById db ident = Some existing"
    and owner: "o_userId existing = userId"
  shows "(validStatuses s = None \<longrightarrow>
            put_objective today userId ident (status_only s) db = (Inl (AppError 400 ''INVALID_STATUS''), db))
       \<and> (validStatuses s = Some st \<and> constraints_hold today db \<longrightarrow>
            (\<exists>db'. put_objective today userId ident (status_only s) db
                     = (Inr (Some (existing\<lparr>o_status := st\<rparr>)), db')
                  \<and> ObjectiveModel_findObjectiveById db' ident = Some (existing\<lparr>o_status := st\<rparr>)))"
proof (intro conjI impI)
  assume "validStatuses s = None"
  with existing owner
  show "put_objective today userId ident (status_only s) db = (Inl (AppError 400 ''INVALID_STATUS''), db)"
    by (simp add: put_objective_def status_only_def ObjectiveService_getObjectiveWithKeyResults_def)
next
  assume a: "validStatuses s = Some st \<and> constraints_hold today db"
  let ?data = "\<lparr>uod_title = None, uod_description = None, uod_category = None,
                 uod_targetDate = None, uod_status = Some st\<rparr>"
  from a have "list_all (\<lambda>row. objectives_checks today row = Inr row) (objectives db)"
    by (simp add: constraints_hold_def)
  from updateObjective_status_total [OF this] obtain updated db' where
    upd: "ObjectiveModel_updateObjective today ident ?data db = Inr (updated, db')"
    by blast
  note U = updateObjective_status_Inr [OF upd]
  from existing have ex: "find (\<lambda>r. o_id r = ident) (objectives db) = Some existing"
    by (simp add: ObjectiveModel_findObjectiveById_def)
  have "\<exists>y. find (\<lambda>r. o_id r = ident) (objectives db') = Some y \<and> status_row_step today ident st existing y"
    by (rule list_all2_find_key [OF U(2) _ ex]) (rule status_row_step_keys)
  then obtain o' where o': "find (\<lambda>r. o_id r = ident) (objectives db') = Some o'"
    "status_row_step today ident st existing o'"
    by auto
  from ex have "o_id existing = ident" by (auto simp: find_Some_iff)
  with o' have found': "ObjectiveModel_findObjectiveById db' ident = Some (existing\<lparr>o_status := st\<rparr>)"
    unfolding status_row_step_def by (auto simp: ObjectiveModel_findObjectiveById_def)
  with U(3) have "updated = Some (existing\<lparr>o_status := st\<rparr>)" by simp
  with existing owner a upd
  have "put_objective today userId ident (status_only s) db = (Inr (Some (existing\<lparr>o_status := st\<rparr>)), db')"
    by (simp add: put_objective_def status_only_def ObjectiveService_getObjectiveWithKeyResults_def
        ObjectiveService_updateObjective_def)
  with found' show "\<exists>db'. put_objective today userId ident (status_only s) db
                     = (Inr (Some (existing\<lparr>o_status := st\<rparr>)), db')
                  \<and> ObjectiveModel_findObjectiveById db' ident = Some (existing\<lparr>o_status := st\<rparr>)"
    by blast
qed

text \<open>
  An instance: the active objective is archived; the status \<open>paused\<close> is refused.
\<close>

theorem put_objective_any_status_witness:
  "ObjectiveModel_findObjectiveById okr_db 1 = Some learn_go
   \<and> o_userId learn_go = 7
   \<and> validStatuses ''archived'' = Some ObjArchived
   \<and> validStatuses ''paused'' = None
   \<and> constraints_hold 10 okr_db
   \<and> fst (put_objective 10 7 1 (status_only ''archived'') okr_db) = Inr (Some (learn_go\<lparr>o_status := ObjArchived\<rparr>))
   \<and> put_objective 10 7 1 (status_only ''paused'') okr_db = (Inl (AppError 400 ''INVALID_STATUS''), okr_db)"
proof -
  have existing: "ObjectiveModel_findObjectiveById okr_db 1 = Some learn_go"
    by (simp add: ObjectiveModel_findObjectiveById_def okr_defs)
  have owner: "o_userId learn_go = 7" by (simp add: learn_go_def)
  have a: "validStatuses ''archived'' = Some ObjArchived" and p: "validStatuses ''paused'' = None"
    by (simp_all add: validStatuses_def)
  from put_objective_any_status [OF existing owner, where s = "''archived''" and st = ObjArchived and today = 10]
    put_objective_any_status [OF existing owner, where s = "''paused''" and st = ObjArchived and today = 10]
    existing owner a p constraints_hold_okr_db
  show ?thesis by auto
qed

text \<open>
  Claim C8 as stated fails: an abandoned objective is set back to active.
\<close>

theorem put_objective_abandoned_to_active:
  "put_objective 10 7 1 (status_only ''active'') (okr_db\<lparr>objectives := [learn_go\<lparr>o_status := ObjAbandoned\<rparr>]\<rparr>)
     = (Inr (Some (learn_go\<lparr>o_status := ObjActive\<rparr>)),
        okr_db\<lparr>objectives := [learn_go\<lparr>o_status := ObjActive\<rparr>]\<rparr>)"
  by (simp add: okr_defs model_defs put_objective_def status_only_def validStatuses_def
      ObjectiveService_getObjectiveWithKeyResults_def ObjectiveService_updateObjective_def Let_def)

section \<open>The stored status of a key result\<close>

text \<open>
  Claim C9, as the code has it. The stored status is computed by the trigger when a statement
  writes \<open>current_value\<close>, \<open>target_value\<close> or \<open>deadline\<close>: right after the insert of a
  progress update, the insert of a key result, or an update of a key result that assigns one
  of these columns, recomputing the status of the written row from its stored values at the
  date of that statement gives the stored row back. Nothing recomputes it as the days pass.
\<close>

theorem status_matches_at_write:
  "(ProgressUpdateModel_createProgressUpdate today progress db = Inr (pu, dbp) \<longrightarrow>
      (\<forall>row \<in> set (key_results dbp). krr_id row = cpd_keyResultId progress \<longrightarrow>
         update_key_result_status today row = row))
   \<and> (KeyResultModel_createKeyResult today created db = Inr (kr, dbc) \<longrightarrow>
      (\<forall>row \<in> set (key_results dbc). krr_id row = kr_id kr \<and> row \<notin> set (key_results db) \<longrightarrow>
         update_key_result_status today row = row))
   \<and> (KeyResultModel_updateKeyResult today ident changed db = Inr (updated, dbu)
        \<and> (ukd_targetValue changed \<noteq> None \<or> ukd_currentValue changed \<noteq> None
             \<or> ukd_deadline changed \<noteq> None) \<longrightarrow>
      (\<forall>row \<in> set (key_results dbu). krr_id row = ident \<longrightarrow>
         update_key_result_status today row = row))"
proof (intro conjI impI ballI)
  fix row
  assume ins: "ProgressUpdateModel_createProgressUpdate today progress db = Inr (pu, dbp)"
    and row: "row \<in> set (key_results dbp)" "krr_id row = cpd_keyResultId progress"
  note I = createProgressUpdate_Inr [OF ins]
  from list_all2_in_set2 [OF I(4) row(1)] obtain r where r: "progress_row_step today pu r row"
    by blast
  from progress_row_step_keys(1) [OF r] row(2) I(1) have "krr_id r = pu_keyResultId pu" by simp
  with r show "update_key_result_status today row = row"
    by (simp add: progress_row_step_def update_key_result_status_idem)
next
  fix row
  assume ins: "KeyResultModel_createKeyResult today created db = Inr (kr, dbc)"
    and row: "row \<in> set (key_results dbc)" "krr_id row = kr_id kr \<and> row \<notin> set (key_results db)"
  from createKeyResult_Inr [OF ins] obtain new where
    "dbc = db\<lparr>key_results := key_results db @ [new], next_uuid := Suc (next_uuid db)\<rparr>"
    "update_key_result_status today new = new"
    by blast
  with row show "update_key_result_status today row = row" by auto
next
  fix row
  assume "KeyResultModel_updateKeyResult today ident changed db = Inr (updated, dbu)
        \<and> (ukd_targetValue changed \<noteq> None \<or> ukd_currentValue changed \<noteq> None
             \<or> ukd_deadline changed \<noteq> None)"
    and "row \<in> set (key_results dbu)" "krr_id row = ident"
  then show "update_key_result_status today row = row"
    by (blast intro: updateKeyResult_status_columns)
qed

text \<open>
  An instance: 30 hours recorded on day 60, twenty days before the deadline, are stored as in
  progress, and recomputing on day 60 agrees.
\<close>

theorem status_matches_at_write_witness:
  "ProgressUpdateModel_createProgressUpdate 60
       \<lparr>cpd_keyResultId = 3, cpd_valueRecorded = 30, cpd_notes = None\<rparr> okr_db
     = Inr (\<lparr>pu_id = 4, pu_keyResultId = 3, pu_valueRecorded = 30, pu_notes = None\<rparr>,
            \<lparr>objectives = [learn_go],
             key_results = [kr_certs, kr_hours\<lparr>krr_current_value := 30, krr_status := KrInProgress\<rparr>],
             progress_updates = [\<lparr>pu_id = 4, pu_keyResultId = 3, pu_valueRecorded = 30, pu_notes = None\<rparr>],
             next_uuid = 5\<rparr>)
   \<and> update_key_result_status 60 (kr_hours\<lparr>krr_current_value := 30, krr_status := KrInProgress\<rparr>)
     = kr_hours\<lparr>krr_current_value := 30, krr_status := KrInProgress\<rparr>"
proof -
  let ?db1 = "\<lparr>objectives = [learn_go],
             key_results = [kr_certs, kr_hours\<lparr>krr_current_value := 30, krr_status := KrInProgress\<rparr>],
             progress_updates = [\<lparr>pu_id = 4, pu_keyResultId = 3, pu_valueRecorded = 30, pu_notes = None\<rparr>],
             next_uuid = 5\<rparr>"
  have ins: "ProgressUpdateModel_createProgressUpdate 60
       \<lparr>cpd_keyResultId = 3, cpd_valueRecorded = 30, cpd_notes = None\<rparr> okr_db
     = Inr (\<lparr>pu_id = 4, pu_keyResultId = 3, pu_valueRecorded = 30, pu_notes = None\<rparr>, ?db1)"
    by (simp add: okr_defs model_defs Let_def)
  have id: "krr_id (kr_hours\<lparr>krr_current_value := 30, krr_status := KrInProgress\<rparr>) = 3"
    by (simp add: kr_hours_def)
  from status_matches_at_write [where today = 60 and db = okr_db and dbp = ?db1
      and progress = "\<lparr>cpd_keyResultId = 3, cpd_valueRecorded = 30, cpd_notes = None\<rparr>"
      and pu = "\<lparr>pu_id = 4, pu_keyResultId = 3, pu_valueRecorded = 30, pu_notes = None\<rparr>"] ins id
  have "update_key_result_status 60 (kr_hours\<lparr>krr_current_value := 30, krr_status := KrInProgress\<rparr>)
     = kr_hours\<lparr>krr_current_value := 30, krr_status := KrInProgress\<rparr>"
    by simp
  with ins show ?thesis by simp
qed

text \<open>
  Claim C9 as stated fails: the row written on day 60 is stored as in progress; recomputed on
  day 70, ten days before the deadline with 30 percent, it is at risk.
\<close>

theorem status_drifts_with_time:
  "key_results (snd (updateProgress 60 (record_hours 30) okr_db))
     = [kr_certs, kr_hours\<lparr>krr_current_value := 30, krr_status := KrInProgress\<rparr>]
   \<and> krr_status (update_key_result_status 70 (kr_hours\<lparr>krr_current_value := 30, krr_status := KrInProgress\<rparr>))
     = KrAtRisk"
  by (simp add: okr_defs model_defs Let_def)

section \<open>Deleting a key result\<close>

text \<open>
  Claim C5. For an existing key result, \<open>deleteKeyResult\<close> fails with 400
  \<open>MINIMUM_KEY_RESULTS_REQUIRED\<close> and deletes nothing whenever the deletion would leave the
  parent objective with fewer than two key results; otherwise it returns true, the key result
  is gone, its progress updates are gone with it, and every other row is as it was.
\<close>

theorem deleteKeyResult_minimum:
  assumes found: "KeyResultModel_findKeyResultById db keyResultId = Some keyResult"
  shows "(int (length (KeyResultModel_findKeyResultsByObjectiveId db (kr_objectiveId keyResult))) - 1 < 2 \<longrightarrow>
            KeyResultService_deleteKeyResult keyResultId db
              = (Inl (AppError 400 ''MINIMUM_KEY_RESULTS_REQUIRED''), db))
       \<and> (\<not> int (length (KeyResultModel_findKeyResultsByObjectiveId db (kr_objectiveId keyResult))) - 1 < 2 \<longrightarrow>
            (\<exists>db'. KeyResultService_deleteKeyResult keyResultId db = (Inr True, db')
               \<and> KeyResultModel_findKeyResultById db' keyResultId = None
               \<and> (\<forall>pu \<in> set (progress_updates db'). pu_keyResultId pu \<noteq> keyResultId)
               \<and> key_results db' = filter (\<lambda>row. krr_id row \<noteq> keyResultId) (key_results db)
               \<and> progress_updates db' = filter (\<lambda>pu. pu_keyResultId pu \<noteq> keyResultId) (progress_updates db)
               \<and> objectives db' = objectives db))"
proof (intro conjI impI)
  assume "int (length (KeyResultModel_findKeyResultsByObjectiveId db (kr_objectiveId keyResult))) - 1 < 2"
  with found show "KeyResultService_deleteKeyResult keyResultId db
              = (Inl (AppError 400 ''MINIMUM_KEY_RESULTS_REQUIRED''), db)"
    by (simp add: KeyResultService_deleteKeyResult_def Let_def)
next
  assume many: "\<not> int (length (KeyResultModel_findKeyResultsByObjectiveId db (kr_objectiveId keyResult))) - 1 < 2"
  let ?db' = "db\<lparr>key_results := filter (\<lambda>row. krr_id row \<noteq> keyResultId) (key_results db),
         progress_updates := filter (\<lambda>row. pu_keyResultId row \<noteq> keyResultId) (progress_updates db)\<rparr>"
  from findKeyResultById_Some [OF found] obtain row where
    "find (\<lambda>r. krr_id r = keyResultId) (key_results db) = Some row"
    by auto
  then have "row \<in> set (key_results db)" "krr_id row = keyResultId" by (auto simp: find_Some_iff)
  then have "filter (\<lambda>row. krr_id row = keyResultId) (key_results db) \<noteq> []"
    by (auto simp: filter_empty_conv)
  with found many have "KeyResultService_deleteKeyResult keyResultId db = (Inr True, ?db')"
    by (simp add: KeyResultService_deleteKeyResult_def KeyResultModel_deleteKeyResult_def Let_def)
  moreover have "KeyResultModel_findKeyResultById ?db' keyResultId = None"
    by (simp add: KeyResultModel_findKeyResultById_def find_None_iff)
  ultimately show "\<exists>db'. KeyResultService_deleteKeyResult keyResultId db = (Inr True, db')
               \<and> KeyResultModel_findKeyResultById db' keyResultId = None
               \<and> (\<forall>pu \<in> set (progress_updates db'). pu_keyResultId pu \<noteq> keyResultId)
               \<and> key_results db' = filter (\<lambda>row. krr_id row \<noteq> keyResultId) (key_results db)
               \<and> progress_updates db' = filter (\<lambda>pu. pu_keyResultId pu \<noteq> keyResultId) (progress_updates db)
               \<and> objectives db' = objectives db"
    by (intro exI [of _ ?db']) simp
qed

text \<open>
  An instance: with two key results the deletion is refused; with three, the third is deleted
  together with its progress update.
\<close>

theorem deleteKeyResult_minimum_witness:
  "KeyResultModel_findKeyResultById okr_db 3 = Some (mapRowToKeyResult kr_hours)
   \<and> length (KeyResultModel_findKeyResultsByObjectiveId okr_db 1) = 2
   \<and> KeyResultService_deleteKeyResult 3 okr_db = (Inl (AppError 400 ''MINIMUM_KEY_RESULTS_REQUIRED''), okr_db)
   \<and> KeyResultModel_findKeyResultById okr_db3 4 = Some (mapRowToKeyResult kr_talks)
   \<and> length (KeyResultModel_findKeyResultsByObjectiveId okr_db3 1) = 3
   \<and> KeyResultService_deleteKeyResult 4 okr_db3
       = (Inr True, \<lparr>objectives = [learn_go], key_results = [kr_certs, kr_hours],
                     progress_updates = [], next_uuid = 6\<rparr>)"
proof -
  have f2: "KeyResultModel_findKeyResultById okr_db 3 = Some (mapRowToKeyResult kr_hours)"
    by (simp add: KeyResultModel_findKeyResultById_def okr_defs)
  have o2: "kr_objectiveId (mapRowToKeyResult kr_hours) = 1"
    by (simp add: mapRowToKeyResult_fields kr_hours_def)
  have n2: "length (KeyResultModel_findKeyResultsByObjectiveId okr_db 1) = 2"
    by (simp add: KeyResultModel_findKeyResultsByObjectiveId_def okr_defs)
  have f3: "KeyResultModel_findKeyResultById okr_db3 4 = Some (mapRowToKeyResult kr_talks)"
    by (simp add: KeyResultModel_findKeyResultById_def okr3_defs)
  have o3: "kr_objectiveId (mapRowToKeyResult kr_talks) = 1"
    by (simp add: mapRowToKeyResult_fields kr_talks_def)
  have n3: "length (KeyResultModel_findKeyResultsByObjectiveId okr_db3 1) = 3"
    by (simp add: KeyResultModel_findKeyResultsByObjectiveId_def okr3_defs)
  from deleteKeyResult_minimum [OF f2] have
    d2: "KeyResultService_deleteKeyResult 3 okr_db = (Inl (AppError 400 ''MINIMUM_KEY_RESULTS_REQUIRED''), okr_db)"
    unfolding o2 n2 by simp
  from deleteKeyResult_minimum [OF f3] obtain db' where
    d3: "KeyResultService_deleteKeyResult 4 okr_db3 = (Inr True, db')"
    and k: "key_results db' = filter (\<lambda>row. krr_id row \<noteq> 4) (key_results okr_db3)"
    unfolding o3 n3 by auto
  have "KeyResultService_deleteKeyResult 4 okr_db3
       = (Inr True, \<lparr>objectives = [learn_go], key_results = [kr_certs, kr_hours],
                     progress_updates = [], next_uuid = 6\<rparr>)"
    by (simp add: KeyResultService_deleteKeyResult_def KeyResultModel_deleteKeyResult_def
        KeyResultModel_findKeyResultById_def KeyResultModel_findKeyResultsByObjectiveId_def
        mapRowToKeyResult_fields okr3_defs Let_def)
  with f2 n2 d2 f3 n3 show ?thesis by simp
qed

section \<open>Batch updates\<close>

text \<open>
  Claim C10, as the code has it. When the entries before a given one have been processed and
  that one names a key result that does not exist, \<open>batchUpdateProgress\<close> fails with 404
  \<open>KEY_RESULT_NOT_FOUND\<close> and leaves behind the database in which the earlier entries are
  applied: their progress updates are appended and each of their key results carries the value
  of its last entry. Whatever the entries before it do, a batch with an entry for a key result
  that does not exist fails, with that 404 or with a database error. Moreover a negative
  value, which \<open>updateProgress\<close> refuses with 400 \<open>INVALID_PROGRESS_VALUE\<close>, is never refused
  that way by the batch.
\<close>

theorem batchUpdateProgress_not_rolled_back:
  assumes processed: "batchUpdateProgress_process today before [] [] db = (Inr (results, objectiveIds), db1)"
    and missing: "KeyResultModel_findKeyResultById db (upr_keyResultId missing) = None"
  shows "batchUpdateProgress today (before @ missing # rest) db
           = (Inl (AppError 404 ''KEY_RESULT_NOT_FOUND''), db1)
       \<and> progress_updates db1 = progress_updates db @ results
       \<and> map pu_keyResultId results = map upr_keyResultId before
       \<and> list_all2 (batch_row_step results) (key_results db) (key_results db1)
       \<and> (\<forall>updates. (\<exists>u \<in> set updates. KeyResultModel_findKeyResultById db (upr_keyResultId u) = None) \<longrightarrow>
             fst (batchUpdateProgress today updates db) = Inl (AppError 404 ''KEY_RESULT_NOT_FOUND'')
             \<or> (\<exists>c. fst (batchUpdateProgress today updates db) = Inl (DbError c)))
       \<and> (\<forall>u us. upr_valueRecorded u < 0
             \<and> KeyResultModel_findKeyResultById db (upr_keyResultId u) \<noteq> None \<longrightarrow>
             fst (updateProgress today u db) = Inl (AppError 400 ''INVALID_PROGRESS_VALUE'')
           \<and> fst (batchUpdateProgress today (u # us) db) \<noteq> Inl (AppError 400 ''INVALID_PROGRESS_VALUE''))"
proof -
  from batchUpdateProgress_process_Inr [OF processed] have new:
    "map pu_keyResultId results = map upr_keyResultId before"
    "progress_updates db1 = progress_updates db @ results"
    "list_all2 (batch_row_step results) (key_results db) (key_results db1)"
    by auto
  from missing have "find (\<lambda>r. krr_id r = upr_keyResultId missing) (key_results db) = None"
    by (simp add: KeyResultModel_findKeyResultById_def)
  have "find (\<lambda>r. krr_id r = upr_keyResultId missing) (key_results db1) = None"
    by (rule list_all2_find_key_None [OF new(3) _ \<open>find _ (key_results db) = None\<close>])
      (rule batch_row_step_keys)
  then have "KeyResultModel_findKeyResultById db1 (upr_keyResultId missing) = None"
    by (simp add: KeyResultModel_findKeyResultById_def)
  with processed have "batchUpdateProgress today (before @ missing # rest) db
           = (Inl (AppError 404 ''KEY_RESULT_NOT_FOUND''), db1)"
    by (simp add: batchUpdateProgress_def batchUpdateProgress_process_append)
  moreover have "fst (batchUpdateProgress today updates db) = Inl (AppError 404 ''KEY_RESULT_NOT_FOUND'')
             \<or> (\<exists>c. fst (batchUpdateProgress today updates db) = Inl (DbError c))"
    if "\<exists>u \<in> set updates. KeyResultModel_findKeyResultById db (upr_keyResultId u) = None" for updates
  proof -
    from batchUpdateProgress_process_missing [OF that, of today "[]" "[]"]
    obtain e dbe where "batchUpdateProgress_process today updates [] [] db = (Inl e, dbe)" by blast
    then have e: "fst (batchUpdateProgress today updates db) = Inl e" by (simp add: batchUpdateProgress_def)
    from batchUpdateProgress_Inl [OF e] e show ?thesis by auto
  qed
  moreover have "fst (updateProgress today u db) = Inl (AppError 400 ''INVALID_PROGRESS_VALUE'')
           \<and> fst (batchUpdateProgress today (u # us) db) \<noteq> Inl (AppError 400 ''INVALID_PROGRESS_VALUE'')"
    if "upr_valueRecorded u < 0 \<and> KeyResultModel_findKeyResultById db (upr_keyResultId u) \<noteq> None" for u us
  proof
    from that show "fst (updateProgress today u db) = Inl (AppError 400 ''INVALID_PROGRESS_VALUE'')"
      by (auto simp: updateProgress_def)
    show "fst (batchUpdateProgress today (u # us) db) \<noteq> Inl (AppError 400 ''INVALID_PROGRESS_VALUE'')"
      using batchUpdateProgress_Inl [of today "u # us" db "AppError 400 ''INVALID_PROGRESS_VALUE''"]
      by auto
  qed
  ultimately show ?thesis using new by blast
qed

text \<open>
  An instance: 40 hours, then an entry for the unknown key result 9, then 50 hours. The call
  fails with the 404, the 40 hours stay recorded, the 50 hours are never reached. A batch of
  \<open>-1\<close> hours gets as far as the CHECK constraint of \<open>progress_updates\<close>.
\<close>

theorem batchUpdateProgress_not_rolled_back_witness:
  "batchUpdateProgress_process 10 [record_hours 40] [] [] okr_db
     = (Inr ([\<lparr>pu_id = 4, pu_keyResultId = 3, pu_valueRecorded = 40, pu_notes = None\<rparr>], [1]),
        \<lparr>objectives = [learn_go],
         key_results = [kr_certs, kr_hours\<lparr>krr_current_value := 40, krr_status := KrInProgress\<rparr>],
         progress_updates = [\<lparr>pu_id = 4, pu_keyResultId = 3, pu_valueRecorded = 40, pu_notes = None\<rparr>],
         next_uuid = 5\<rparr>)
   \<and> KeyResultModel_findKeyResultById okr_db 9 = None
   \<and> batchUpdateProgress 10
        [record_hours 40, \<lparr>upr_keyResultId = 9, upr_valueRecorded = 1, upr_notes = None\<rparr>, record_hours 50] okr_db
     = (Inl (AppError 404 ''KEY_RESULT_NOT_FOUND''),
        \<lparr>objectives = [learn_go],
         key_results = [kr_certs, kr_hours\<lparr>krr_current_value := 40, krr_status := KrInProgress\<rparr>],
         progress_updates = [\<lparr>pu_id = 4, pu_keyResultId = 3, pu_valueRecorded = 40, pu_notes = None\<rparr>],
         next_uuid = 5\<rparr>)
   \<and> fst (updateProgress 10 (record_hours (- 1)) okr_db) = Inl (AppError 400 ''INVALID_PROGRESS_VALUE'')
   \<and> fst (batchUpdateProgress 10 [record_hours (- 1)] okr_db) = Inl (DbError ''progress_updates_value_positive'')"
proof -
  let ?pu = "\<lparr>pu_id = 4, pu_keyResultId = 3, pu_valueRecorded = 40, pu_notes = None\<rparr>"
  let ?db1 = "\<lparr>objectives = [learn_go],
         key_results = [kr_certs, kr_hours\<lparr>krr_current_value := 40, krr_status := KrInProgress\<rparr>],
         progress_updates = [?pu], next_uuid = 5\<rparr>"
  let ?missing = "\<lparr>upr_keyResultId = 9, upr_valueRecorded = 1, upr_notes = None\<rparr>"
  have processed: "batchUpdateProgress_process 10 [record_hours 40] [] [] okr_db = (Inr ([?pu], [1]), ?db1)"
    by (simp add: okr_defs model_defs Set_add_def Let_def)
  have missing: "KeyResultModel_findKeyResultById okr_db (upr_keyResultId ?missing) = None"
    by (simp add: KeyResultModel_findKeyResultById_def okr_defs)
  have neg: "fst (batchUpdateProgress 10 [record_hours (- 1)] okr_db) = Inl (DbError ''progress_updates_value_positive'')"
    by (simp add: batchUpdateProgress_def okr_defs model_defs Let_def)
  have found: "KeyResultModel_findKeyResultById okr_db (upr_keyResultId (record_hours (- 1))) \<noteq> None"
    by (simp add: KeyResultModel_findKeyResultById_def okr_defs)
  note T = batchUpdateProgress_not_rolled_back [OF processed missing, of "[record_hours 50]"]
  from T have "batchUpdateProgress 10 [record_hours 40, ?missing, record_hours 50] okr_db
     = (Inl (AppError 404 ''KEY_RESULT_NOT_FOUND''), ?db1)"
    by simp
  moreover from T found
  have "fst (updateProgress 10 (record_hours (- 1)) okr_db) = Inl (AppError 400 ''INVALID_PROGRESS_VALUE'')"
    by (simp add: record_hours_def)
  ultimately show ?thesis using processed missing neg by simp
qed

text \<open>
  Claim C10 as stated fails. A batch of 101 hours for the hours key result, whose target
  is 100, and then an entry for the unknown key result 9 does not fail with the 404: the
  first entry's update of the key result violates the CHECK constraint
  \<open>key_results_current_value_valid\<close>, the call fails with that database error, and the entry
  for the unknown key result is never looked up.
\<close>

theorem batchUpdateProgress_earlier_entry_rejected:
  "KeyResultModel_findKeyResultById okr_db 9 = None
   \<and> batchUpdateProgress 10
        [record_hours 101, \<lparr>upr_keyResultId = 9, upr_valueRecorded = 1, upr_notes = None\<rparr>] okr_db
     = (Inl (DbError ''key_results_current_value_valid''), okr_db)"
  by (simp add: batchUpdateProgress_def KeyResultModel_findKeyResultById_def okr_defs model_defs Set_add_def Let_def)

section \<open>Creating an objective with its key results\<close>

text \<open>
  Claim C4, as the code has it. A request with fewer than two or more than five key results
  is refused with 400 \<open>INVALID_KEY_RESULTS_COUNT\<close>. Whenever the service refuses a request
  itself (count or deadlines) nothing is written. When the call succeeds, the objective and
  all of its key results, between two and five, are written. When the database rejects a
  statement, either nothing is written (the insert of the objective failed) or the objective
  is written together with those key results whose own inserts succeeded, which are fewer
  than requested: the inserts are separate statements and nothing undoes the earlier ones.
\<close>

theorem createObjectiveWithKeyResults_persistence:
  "(length (cor_keyResults data) < 2 \<or> 5 < length (cor_keyResults data) \<longrightarrow>
      ObjectiveService_createObjectiveWithKeyResults today data db
        = (Inl (AppError 400 ''INVALID_KEY_RESULTS_COUNT''), db))
   \<and> (case ObjectiveService_createObjectiveWithKeyResults today data db of
        (Inr (objective, keyResults), db') \<Rightarrow>
          2 \<le> length keyResults \<and> length keyResults \<le> 5
          \<and> length keyResults = length (cor_keyResults data)
          \<and> (\<exists>rows. db' = db\<lparr>objectives := objectives db @ [objective],
                                key_results := key_results db @ rows,
                                next_uuid := Suc (next_uuid db) + length rows\<rparr>
                \<and> keyResults = map mapRowToKeyResult rows
                \<and> list_all (\<lambda>row. krr_objective_id row = o_id objective) rows)
      | (Inl (AppError statusCode code), db') \<Rightarrow> db' = db
      | (Inl (DbError s), db') \<Rightarrow>
          db' = db
          \<or> (\<exists>objective rows. db' = db\<lparr>objectives := objectives db @ [objective],
                                        key_results := key_results db @ rows,
                                        next_uuid := Suc (next_uuid db) + length rows\<rparr>
                \<and> length rows < length (cor_keyResults data)
                \<and> list_all (\<lambda>row. krr_objective_id row = o_id objective) rows))"
proof (intro conjI impI)
  assume "length (cor_keyResults data) < 2 \<or> 5 < length (cor_keyResults data)"
  then show "ObjectiveService_createObjectiveWithKeyResults today data db
        = (Inl (AppError 400 ''INVALID_KEY_RESULTS_COUNT''), db)"
    by (auto simp: ObjectiveService_createObjectiveWithKeyResults_def)
next
  let ?cod = "\<lparr>cod_userId = cor_userId data, cod_title = cor_title data,
                 cod_description = cor_description data, cod_category = cor_category data,
                 cod_targetDate = cor_targetDate data\<rparr>"
  let ?P = "\<lambda>result. case result of
        (Inr (objective, keyResults), db') \<Rightarrow>
          2 \<le> length keyResults \<and> length keyResults \<le> 5
          \<and> length keyResults = length (cor_keyResults data)
          \<and> (\<exists>rows. db' = db\<lparr>objectives := objectives db @ [objective],
                                key_results := key_results db @ rows,
                                next_uuid := Suc (next_uuid db) + length rows\<rparr>
                \<and> keyResults = map mapRowToKeyResult rows
                \<and> list_all (\<lambda>row. krr_objective_id row = o_id objective) rows)
      | (Inl (AppError statusCode code), db') \<Rightarrow> db' = db
      | (Inl (DbError s), db') \<Rightarrow>
          db' = db
          \<or> (\<exists>objective rows. db' = db\<lparr>objectives := objectives db @ [objective],
                                        key_results := key_results db @ rows,
                                        next_uuid := Suc (next_uuid db) + length rows\<rparr>
                \<and> length rows < length (cor_keyResults data)
                \<and> list_all (\<lambda>row. krr_objective_id row = o_id objective) rows)"
  consider (count) "length (cor_keyResults data) < 2 \<or> 5 < length (cor_keyResults data)"
    | (deadline) "\<not> (length (cor_keyResults data) < 2 \<or> 5 < length (cor_keyResults data))"
        "0 < length (filter (\<lambda>kr. cor_targetDate data < krs_deadline kr) (cor_keyResults data))"
    | (insert) "\<not> (length (cor_keyResults data) < 2 \<or> 5 < length (cor_keyResults data))"
        "\<not> 0 < length (filter (\<lambda>kr. cor_targetDate data < krs_deadline kr) (cor_keyResults data))"
    by blast
  then show "?P (ObjectiveService_createObjectiveWithKeyResults today data db)"
  proof cases
    case count
    then show ?thesis by (auto simp: ObjectiveService_createObjectiveWithKeyResults_def)
  next
    case deadline
    then show ?thesis by (auto simp: ObjectiveService_createObjectiveWithKeyResults_def)
  next
    case insert
    show ?thesis
    proof (cases "ObjectiveModel_createObjective today ?cod db")
      case (Inl e)
      with createObjective_Inl [OF Inl] insert show ?thesis
        by (auto simp: ObjectiveService_createObjectiveWithKeyResults_def)
    next
      case (Inr p)
      obtain objective db1 where p: "p = (objective, db1)" by (cases p)
      note O = createObjective_Inr [OF Inr [unfolded p]]
      let ?ds = "map (\<lambda>kr. \<lparr>ckd_objectiveId = o_id objective,
                                  ckd_description = krs_description kr,
                                  ckd_targetValue = krs_targetValue kr,
                                  ckd_unit = krs_unit kr,
                                  ckd_deadline = krs_deadline kr,
                                  ckd_currentValue = None\<rparr>) (cor_keyResults data)"
      obtain r2 db2 where all: "Promise_all_createKeyResult today ?ds db1 = (r2, db2)"
        by (cases "Promise_all_createKeyResult today ?ds db1")
      from Promise_all_createKeyResult_result [OF all] obtain rows where rows:
        "db2 = db1\<lparr>key_results := key_results db1 @ rows, next_uuid := next_uuid db1 + length rows\<rparr>"
        "list_all (\<lambda>row. krr_objective_id row \<in> ckd_objectiveId ` set ?ds) rows"
        "case r2 of Inr krs \<Rightarrow> krs = map mapRowToKeyResult rows \<and> length rows = length ?ds
              | Inl e \<Rightarrow> (\<exists>s. e = DbError s) \<and> length rows < length ?ds"
        by blast
      from rows(2) have oid: "list_all (\<lambda>row. krr_objective_id row = o_id objective) rows"
        by (auto simp: list_all_iff)
      from rows(1) O(1) have db2: "db2 = db\<lparr>objectives := objectives db @ [objective],
                                key_results := key_results db @ rows,
                                next_uuid := Suc (next_uuid db) + length rows\<rparr>"
        by simp
      have call: "ObjectiveService_createObjectiveWithKeyResults today data db
           = (case r2 of Inl e \<Rightarrow> (Inl e, db2) | Inr keyResults \<Rightarrow> (Inr (objective, keyResults), db2))"
        using insert Inr p all
        by (auto simp: ObjectiveService_createObjectiveWithKeyResults_def split: sum.splits)
      show ?thesis
      proof (cases r2)
        case (Inl e)
        with rows(3) obtain s where e: "e = DbError s" and less: "length rows < length (cor_keyResults data)"
          by auto
        from db2 less oid
        have "\<exists>objective rows. db2 = db\<lparr>objectives := objectives db @ [objective],
                                        key_results := key_results db @ rows,
                                        next_uuid := Suc (next_uuid db) + length rows\<rparr>
                \<and> length rows < length (cor_keyResults data)
                \<and> list_all (\<lambda>row. krr_objective_id row = o_id objective) rows"
          by blast
        with call Inl e show ?thesis by simp
      next
        case (Inr krs)
        with rows(3) have krs: "krs = map mapRowToKeyResult rows"
          and len: "length rows = length (cor_keyResults data)"
          by auto
        from db2 krs oid
        have "\<exists>rows. db2 = db\<lparr>objectives := objectives db @ [objective],
                                key_results := key_results db @ rows,
                                next_uuid := Suc (next_uuid db) + length rows\<rparr>
                \<and> krs = map mapRowToKeyResult rows
                \<and> list_all (\<lambda>row. krr_objective_id row = o_id objective) rows"
          by blast
        with call Inr krs len insert(1) show ?thesis by simp
      qed
    qed
  qed
qed

text \<open>
  An instance: a request without key results is refused; the request with two well-formed
  key results writes the objective and both of them.
\<close>

theorem createObjectiveWithKeyResults_persistence_witness:
  "ObjectiveService_createObjectiveWithKeyResults 10 ((create_learn_go [])\<lparr>cor_keyResults := []\<rparr>) empty_db
     = (Inl (AppError 400 ''INVALID_KEY_RESULTS_COUNT''), empty_db)
   \<and> ObjectiveService_createObjectiveWithKeyResults 10 (create_learn_go ''Practice 100 hours'') empty_db
     = (Inr (learn_go\<lparr>o_id := 0\<rparr>,
             map mapRowToKeyResult
               [kr_certs\<lparr>krr_id := 1, krr_objective_id := 0, krr_current_value := 0, krr_status := KrNotStarted\<rparr>,
                kr_hours\<lparr>krr_id := 2, krr_objective_id := 0\<rparr>]),
        \<lparr>objectives = [learn_go\<lparr>o_id := 0\<rparr>],
         key_results =
           [kr_certs\<lparr>krr_id := 1, krr_objective_id := 0, krr_current_value := 0, krr_status := KrNotStarted\<rparr>,
            kr_hours\<lparr>krr_id := 2, krr_objective_id := 0\<rparr>],
         progress_updates = [], next_uuid = 3\<rparr>)"
proof -
  have "length (cor_keyResults ((create_learn_go [])\<lparr>cor_keyResults := []\<rparr>)) < 2" by simp
  with createObjectiveWithKeyResults_persistence [of "(create_learn_go [])\<lparr>cor_keyResults := []\<rparr>" 10 empty_db]
  have "ObjectiveService_createObjectiveWithKeyResults 10 ((create_learn_go [])\<lparr>cor_keyResults := []\<rparr>) empty_db
     = (Inl (AppError 400 ''INVALID_KEY_RESULTS_COUNT''), empty_db)"
    by blast
  moreover have "ObjectiveService_createObjectiveWithKeyResults 10 (create_learn_go ''Practice 100 hours'') empty_db
     = (Inr (learn_go\<lparr>o_id := 0\<rparr>,
             map mapRowToKeyResult
               [kr_certs\<lparr>krr_id := 1, krr_objective_id := 0, krr_current_value := 0, krr_status := KrNotStarted\<rparr>,
                kr_hours\<lparr>krr_id := 2, krr_objective_id := 0\<rparr>]),
        \<lparr>objectives = [learn_go\<lparr>o_id := 0\<rparr>],
         key_results =
           [kr_certs\<lparr>krr_id := 1, krr_objective_id := 0, krr_current_value := 0, krr_status := KrNotStarted\<rparr>,
            kr_hours\<lparr>krr_id := 2, krr_objective_id := 0\<rparr>],
         progress_updates = [], next_uuid = 3\<rparr>)"
    by (simp add: create_defs okr_defs model_defs Let_def)
  ultimately show ?thesis by simp
qed

text \<open>
  Claim C4 as stated fails: when the description of the second key result has fewer than ten
  characters, its insert violates \<open>key_results_description_length\<close>, the call fails, and the
  objective stays in the database with a single key result.
\<close>

theorem createObjectiveWithKeyResults_partial:
  "ObjectiveService_createObjectiveWithKeyResults 10 (create_learn_go ''hours'') empty_db
     = (Inl (DbError ''key_results_description_length''),
        \<lparr>objectives = [learn_go\<lparr>o_id := 0\<rparr>],
         key_results = [kr_certs\<lparr>krr_id := 1, krr_objective_id := 0, krr_current_value := 0,
                                 krr_status := KrNotStarted\<rparr>],
         progress_updates = [], next_uuid = 2\<rparr>)"
  by (simp add: create_defs okr_defs model_defs Let_def)

end
